theory Spec2Isabelle
  imports Main "HOL-Library.Sublist"
begin

section \<open>JSON values and Python's view of them\<close>

text \<open>
  The values the program reads out of the remote API's JSON are scalars: \<open>null\<close>,
  booleans, numbers and strings. Numbers are modelled as unbounded integers (a JSON
  number with a fraction is outside the model); a field holding a nested array or
  object is outside the model as well. A Python \<open>str\<close> is a \<open>string\<close>.
\<close>

datatype json = JNull | JBool bool | JInt int | JStr string

text \<open>A JSON object, parsed into a Python \<open>dict\<close>: an association list read with \<open>map_of\<close>.\<close>

type_synonym item = "(string \<times> json) list"

text \<open>What \<open>response.json()\<close> hands back: a JSON object or a JSON array of objects.\<close>

datatype response = RObject item | RArray "item list"

text \<open>
  An exception, an instance of \<open>Exception\<close>: its class name and the text \<open>str(e)\<close>
  gives.
\<close>

datatype error = PyError string string

fun str_error :: "error \<Rightarrow> string" where
  "str_error (PyError cls msg) = msg"

text \<open>Python's truth value of a scalar, as \<open>not x\<close> and \<open>x or y\<close> use it.\<close>

fun truthy :: "json \<Rightarrow> bool" where
  "truthy JNull = False"
| "truthy (JBool b) = b"
| "truthy (JInt i) = (i \<noteq> 0)"
| "truthy (JStr s) = (s \<noteq> [])"

definition py_or :: "json \<Rightarrow> json \<Rightarrow> json" where
  "py_or a b = (if truthy a then a else b)"

text \<open>\<open>d.get(k)\<close>, \<open>d.get(k, default)\<close> and \<open>d[k]\<close> (whose \<open>KeyError\<close> prints the key's repr).\<close>

definition dict_get :: "item \<Rightarrow> string \<Rightarrow> json" where
  "dict_get d k = (case map_of d k of None \<Rightarrow> JNull | Some v \<Rightarrow> v)"

definition dict_get_default :: "item \<Rightarrow> string \<Rightarrow> json \<Rightarrow> json" where
  "dict_get_default d k dflt = (case map_of d k of None \<Rightarrow> dflt | Some v \<Rightarrow> v)"

definition dict_index :: "item \<Rightarrow> string \<Rightarrow> error + json" where
  "dict_index d k =
     (case map_of d k of
        None \<Rightarrow> Inl (PyError ''KeyError'' ([CHR 0x27] @ k @ [CHR 0x27]))
      | Some v \<Rightarrow> Inr v)"

text \<open>Decimal digits of an integer, as \<open>str\<close> prints them.\<close>

definition digit_char :: "nat \<Rightarrow> char" where
  "digit_char d = char_of (48 + d)"

function str_nat :: "nat \<Rightarrow> string" where
  "str_nat n = (if n < 10 then [digit_char n] else str_nat (n div 10) @ [digit_char (n mod 10)])"
  by pat_completeness auto
termination
  by (relation "measure id") auto

declare str_nat.simps [simp del]

definition str_int :: "int \<Rightarrow> string" where
  "str_int i = (if i < 0 then CHR ''-'' # str_nat (nat (- i)) else str_nat (nat i))"

text \<open>How an f-string renders a value: \<open>f"{v}"\<close>.\<close>

fun py_str :: "json \<Rightarrow> string" where
  "py_str JNull = ''None''"
| "py_str (JBool b) = (if b then ''True'' else ''False'')"
| "py_str (JInt i) = str_int i"
| "py_str (JStr s) = s"

text \<open>
  \<open>str.upper()\<close>, on the ASCII letters. Python also maps letters beyond ASCII (a
  ligature such as U+FB02 becomes \<open>FL\<close>), but no text holding one of them becomes
  \<open>FOLDER\<close>, the only text the result is compared with, so leaving them as they are
  decides that comparison the same way. On a value that is not a \<open>str\<close> the method
  does not exist.
\<close>

definition upper_char :: "char \<Rightarrow> char" where
  "upper_char c =
     (let n = (of_char c :: nat) in if 97 \<le> n \<and> n \<le> 122 then char_of (n - 32) else c)"

definition type_name :: "json \<Rightarrow> string" where
  "type_name v =
     (case v of JNull \<Rightarrow> ''NoneType'' | JBool b \<Rightarrow> ''bool'' | JInt i \<Rightarrow> ''int'' | JStr s \<Rightarrow> ''str'')"

definition no_attribute :: "string \<Rightarrow> string \<Rightarrow> error" where
  "no_attribute ty attr =
     PyError ''AttributeError''
       ([CHR 0x27] @ ty @ [CHR 0x27] @ '' object has no attribute '' @ [CHR 0x27] @ attr @ [CHR 0x27])"

definition py_upper :: "json \<Rightarrow> error + string" where
  "py_upper v =
     (case v of JStr s \<Rightarrow> Inr (map upper_char s) | _ \<Rightarrow> Inl (no_attribute (type_name v) ''upper''))"

text \<open>\<open>s.lstrip("/")\<close>: every leading slash goes.\<close>

definition lstrip_slash :: "string \<Rightarrow> string" where
  "lstrip_slash s = dropWhile (\<lambda>c. c = CHR ''/'') s"

section \<open>The outside world: the token provider and the REST API\<close>

text \<open>
  \<open>get_access_token\<close> is what the OAuth2 integration answers. \<open>http_get url auth\<close> is
  the outcome of \<open>requests.get(url, headers={"Authorization": auth})\<close> followed by
  \<open>raise_for_status()\<close> and \<open>json()\<close>: the parsed body, or the exception one of the
  three raised. The remote answers do not change while one operation runs.
  \<open>refused_option v\<close> is the exception the viktor library raises when an option is
  built with a value \<open>v\<close> it refuses; the library is not part of the repository, so
  the exception's class and wording are the world's to give.
\<close>

record world =
  get_access_token :: "error + string"
  http_get :: "string \<Rightarrow> string \<Rightarrow> error + response"
  refused_option :: "json \<Rightarrow> error"

datatype event = TokenRequest | HttpGet string string

text \<open>
  A computation's outcome: \<open>None\<close> when it did not finish within its recursion
  budget, otherwise the value returned or the exception raised, with the requests
  issued on the way, in order.
\<close>

type_synonym 'a io = "((error + 'a) \<times> event list) option"

definition io_return :: "'a \<Rightarrow> 'a io" where
  "io_return x = Some (Inr x, [])"

definition io_raise :: "error \<Rightarrow> 'a io" where
  "io_raise e = Some (Inl e, [])"

definition io_lift :: "error + 'a \<Rightarrow> 'a io" where
  "io_lift r = Some (r, [])"

definition io_bind :: "'a io \<Rightarrow> ('a \<Rightarrow> 'b io) \<Rightarrow> 'b io" where
  "io_bind m f =
     (case m of
        None \<Rightarrow> None
      | Some (Inl e, t) \<Rightarrow> Some (Inl e, t)
      | Some (Inr x, t) \<Rightarrow> (case f x of None \<Rightarrow> None | Some (r, t') \<Rightarrow> Some (r, t @ t')))"

text \<open>\<open>try: m except Exception as e: h e\<close>\<close>

definition io_try :: "'a io \<Rightarrow> (error \<Rightarrow> 'a io) \<Rightarrow> 'a io" where
  "io_try m h =
     (case m of
        None \<Rightarrow> None
      | Some (Inl e, t) \<Rightarrow> (case h e of None \<Rightarrow> None | Some (r, t') \<Rightarrow> Some (r, t @ t'))
      | Some (Inr x, t) \<Rightarrow> Some (Inr x, t))"

definition result_of :: "'a io \<Rightarrow> (error + 'a) option" where
  "result_of m = map_option fst m"



definition integration_get_access_token :: "world \<Rightarrow> string io" where
  "integration_get_access_token w = Some (get_access_token w, [TokenRequest])"

definition requests_get :: "world \<Rightarrow> string \<Rightarrow> string \<Rightarrow> response io" where
  "requests_get w url auth = Some (http_get w url auth, [HttpGet url auth])"

text \<open>\<open>resp.json().get(k)\<close>: a list has no \<open>get\<close>.\<close>

definition response_get :: "response \<Rightarrow> string \<Rightarrow> error + json" where
  "response_get r k =
     (case r of RObject d \<Rightarrow> Inr (dict_get d k) | RArray xs \<Rightarrow> Inl (no_attribute ''list'' ''get''))"

text \<open>
  \<open>for item in items\<close> where the loop body starts with \<open>item.get(...)\<close>: an array
  gives its objects; an object gives its keys, and the first key, a \<open>str\<close>, has no \<open>get\<close>.
\<close>

definition response_items :: "response \<Rightarrow> error + item list" where
  "response_items r =
     (case r of
        RArray xs \<Rightarrow> Inr xs
      | RObject d \<Rightarrow> (if d = [] then Inr [] else Inl (no_attribute ''str'' ''get'')))"

definition BASE_URL :: string where
  "BASE_URL = ''https://app.connect.trimble.com''"

definition API_BASE :: string where
  "API_BASE = BASE_URL @ ''/tc/api/2.0''"

section \<open>Controller.list_project_files\<close>

record file_record =
  rec_id :: json
  rec_name :: json
  rec_path :: string
  rec_size :: json
  rec_modifiedAt :: json
  rec_raw :: item

text \<open>\<open>(item.get("type") or item.get("entityType") or "").upper()\<close>\<close>

definition item_type_of :: "item \<Rightarrow> error + string" where
  "item_type_of item =
     py_upper (py_or (py_or (dict_get item ''type'') (dict_get item ''entityType'')) (JStr ''''))"

text \<open>\<open>f"{current_path}/{name}".lstrip("/")\<close>\<close>

definition item_path_of :: "string \<Rightarrow> json \<Rightarrow> string" where
  "item_path_of current_path name = lstrip_slash (current_path @ ''/'' @ py_str name)"

text \<open>
  The body of \<open>for item in items\<close> in \<open>list_folder\<close>, with \<open>files\<close> as the list built so
  far and \<open>recurse\<close> standing for the nested call of \<open>list_folder\<close>.
\<close>

fun walk_items ::
  "(json \<Rightarrow> string \<Rightarrow> file_record list io) \<Rightarrow> string \<Rightarrow> item list \<Rightarrow> file_record list
     \<Rightarrow> file_record list io" where
  "walk_items recurse current_path [] files = io_return files"
| "walk_items recurse current_path (item # items) files =
     (let name = dict_get_default item ''name'' (JStr '''');
          item_id = dict_get item ''id''
      in io_bind (io_lift (item_type_of item)) (\<lambda>item_type.
           let item_path = item_path_of current_path name in
           if item_type = ''FOLDER''
           then io_bind (recurse item_id item_path) (\<lambda>sub.
                  walk_items recurse current_path items (files @ sub))
           else walk_items recurse current_path items
                  (files @ [\<lparr>rec_id = item_id, rec_name = name, rec_path = item_path,
                             rec_size = dict_get item ''size'',
                             rec_modifiedAt =
                               py_or (dict_get item ''modifiedAt'') (dict_get item ''modifiedOn''),
                             rec_raw = item\<rparr>])))"

text \<open>
  \<open>list_folder(folder_id, current_path)\<close>. The first argument is the number of nested
  \<open>list_folder\<close> calls still allowed; a remote folder structure deeper than that (or
  one that contains itself) is not walked to the end.
\<close>

definition folder_url :: "json \<Rightarrow> string" where
  "folder_url folder_id = API_BASE @ ''/folders/'' @ py_str folder_id @ ''/items''"

fun list_folder :: "nat \<Rightarrow> world \<Rightarrow> string \<Rightarrow> json \<Rightarrow> string \<Rightarrow> file_record list io" where
  "list_folder 0 w auth folder_id current_path = None"
| "list_folder (Suc fuel) w auth folder_id current_path =
     io_bind (requests_get w (folder_url folder_id) auth) (\<lambda>resp.
     io_bind (io_lift (response_items resp)) (\<lambda>items.
       walk_items (list_folder fuel w auth) current_path items []))"

definition project_url :: "json \<Rightarrow> string" where
  "project_url project_id = API_BASE @ ''/projects/'' @ py_str project_id"

definition list_project_files :: "nat \<Rightarrow> world \<Rightarrow> json \<Rightarrow> string \<Rightarrow> file_record list io" where
  "list_project_files fuel w project_id token =
     (let auth = ''Bearer '' @ token in
      io_bind (requests_get w (project_url project_id) auth) (\<lambda>proj_resp.
      io_bind (io_lift (response_get proj_resp ''rootId'')) (\<lambda>root_id.
        if \<not> truthy root_id
        then io_raise (PyError ''Exception'' ''Could not find root folder ID for this project.'')
        else list_folder fuel w auth root_id '''')))"

section \<open>The option lists: get_trimble_projects and get_project_files\<close>

text \<open>
  An option of a selection list, and \<open>vkt.OptionListElement(value=..., label=...)\<close>,
  the library's constructor: it raises on a value that is \<open>None\<close> or the empty text,
  and a label that is \<open>None\<close> becomes \<open>str(value)\<close>.
\<close>

record option_element =
  opt_value :: json
  opt_label :: json

definition OptionListElement :: "world \<Rightarrow> json \<Rightarrow> json \<Rightarrow> error + option_element" where
  "OptionListElement w v l =
     (if v = JNull \<or> v = JStr '''' then Inl (refused_option w v)
      else Inr \<lparr>opt_value = v, opt_label = (if l = JNull then JStr (py_str v) else l)\<rparr>)"

text \<open>\<open>[vkt.OptionListElement(value=v, label=l)]\<close>\<close>

definition single_option :: "world \<Rightarrow> json \<Rightarrow> json \<Rightarrow> option_element list io" where
  "single_option w v l = io_bind (io_lift (OptionListElement w v l)) (\<lambda>opt. io_return [opt])"

text \<open>The parameters: the values of the option fields \<open>project\<close> and \<open>file\<close>.\<close>

record params =
  project :: json
  file_param :: json

text \<open>
  \<open>for project in projects\<close> where the body indexes \<open>project["id"]\<close>: an array gives its
  objects; an object gives its keys, and a \<open>str\<close> indexed by a \<open>str\<close> is a \<open>TypeError\<close>
  (worded as CPython 3.11 and later do).
\<close>

definition response_projects :: "response \<Rightarrow> error + item list" where
  "response_projects r =
     (case r of
        RArray xs \<Rightarrow> Inr xs
      | RObject d \<Rightarrow>
          (if d = [] then Inr []
           else Inl (PyError ''TypeError''
                  (''string indices must be integers, not '' @ [CHR 0x27] @ ''str'' @ [CHR 0x27]))))"

text \<open>\<open>[vkt.OptionListElement(value=project["id"], label=project["name"]) for project in projects]\<close>\<close>

fun project_options :: "world \<Rightarrow> item list \<Rightarrow> error + option_element list" where
  "project_options w [] = Inr []"
| "project_options w (p # ps) =
     (case dict_index p ''id'' of
        Inl e \<Rightarrow> Inl e
      | Inr v \<Rightarrow>
          (case dict_index p ''name'' of
             Inl e \<Rightarrow> Inl e
           | Inr l \<Rightarrow>
               (case OptionListElement w v l of
                  Inl e \<Rightarrow> Inl e
                | Inr opt \<Rightarrow>
                    (case project_options w ps of
                       Inl e \<Rightarrow> Inl e
                     | Inr opts \<Rightarrow> Inr (opt # opts)))))"

text \<open>The \<open>try\<close> block of \<open>get_trimble_projects\<close>, then the function with its handler.\<close>

definition get_trimble_projects_try :: "world \<Rightarrow> option_element list io" where
  "get_trimble_projects_try w =
     io_bind (integration_get_access_token w) (\<lambda>token.
       let auth = ''Bearer '' @ token;
           url = API_BASE @ ''/projects''
       in io_bind (requests_get w url auth) (\<lambda>resp.
          io_bind (io_lift (response_projects resp)) (\<lambda>projects.
          io_bind (io_lift (project_options w projects)) (\<lambda>options.
            if options \<noteq> [] then io_return options
            else single_option w (JStr '''') (JStr ''No projects found'')))))"

definition get_trimble_projects :: "world \<Rightarrow> option_element list io" where
  "get_trimble_projects w =
     io_try (get_trimble_projects_try w) (\<lambda>e.
       single_option w (JStr ''error'') (JStr (''Error loading projects: '' @ str_error e)))"

text \<open>The dict \<open>get_project_files\<close> builds for a file: \<open>id\<close>, \<open>name\<close>, \<open>path\<close>.\<close>

record file_entry =
  entry_id :: json
  entry_name :: json
  entry_path :: string

text \<open>The \<open>list_folder\<close> nested in \<open>get_project_files\<close>: its loop, then the function.\<close>

fun walk_entries ::
  "(json \<Rightarrow> string \<Rightarrow> file_entry list io) \<Rightarrow> string \<Rightarrow> item list \<Rightarrow> file_entry list
     \<Rightarrow> file_entry list io" where
  "walk_entries recurse current_path [] files = io_return files"
| "walk_entries recurse current_path (item # items) files =
     (let name = dict_get_default item ''name'' (JStr '''');
          item_id = dict_get item ''id''
      in io_bind (io_lift (item_type_of item)) (\<lambda>item_type.
           let item_path = item_path_of current_path name in
           if item_type = ''FOLDER''
           then io_bind (recurse item_id item_path) (\<lambda>sub.
                  walk_entries recurse current_path items (files @ sub))
           else walk_entries recurse current_path items
                  (files @ [\<lparr>entry_id = item_id, entry_name = name, entry_path = item_path\<rparr>])))"

fun list_folder_entries :: "nat \<Rightarrow> world \<Rightarrow> string \<Rightarrow> json \<Rightarrow> string \<Rightarrow> file_entry list io" where
  "list_folder_entries 0 w auth folder_id current_path = None"
| "list_folder_entries (Suc fuel) w auth folder_id current_path =
     io_bind (requests_get w (folder_url folder_id) auth) (\<lambda>resp.
     io_bind (io_lift (response_items resp)) (\<lambda>items.
       walk_entries (list_folder_entries fuel w auth) current_path items []))"

text \<open>\<open>[vkt.OptionListElement(value=file["id"], label=file["path"]) for file in files]\<close>\<close>

fun file_options :: "world \<Rightarrow> file_entry list \<Rightarrow> error + option_element list" where
  "file_options w [] = Inr []"
| "file_options w (f # fs) =
     (case OptionListElement w (entry_id f) (JStr (entry_path f)) of
        Inl e \<Rightarrow> Inl e
      | Inr opt \<Rightarrow>
          (case file_options w fs of
             Inl e \<Rightarrow> Inl e
           | Inr opts \<Rightarrow> Inr (opt # opts)))"

text \<open>The \<open>try\<close> block of \<open>get_project_files\<close>, then the function.\<close>

definition get_project_files_try :: "nat \<Rightarrow> world \<Rightarrow> params \<Rightarrow> option_element list io" where
  "get_project_files_try fuel w ps =
     io_bind (integration_get_access_token w) (\<lambda>token.
       let auth = ''Bearer '' @ token in
       io_bind (requests_get w (project_url (project ps)) auth) (\<lambda>proj_resp.
       io_bind (io_lift (response_get proj_resp ''rootId'')) (\<lambda>root_id.
         if \<not> truthy root_id
         then single_option w (JStr '''') (JStr ''Could not find root folder'')
         else io_bind (list_folder_entries fuel w auth root_id '''') (\<lambda>files.
              io_bind (io_lift (file_options w files)) (\<lambda>options.
                if options \<noteq> [] then io_return options
                else single_option w (JStr '''') (JStr ''No files found in project''))))))"

definition get_project_files :: "nat \<Rightarrow> world \<Rightarrow> params \<Rightarrow> option_element list io" where
  "get_project_files fuel w ps =
     (if \<not> truthy (project ps)
      then single_option w (JStr ''Select a Project First'') (JStr ''Select a Project First'')
      else io_try (get_project_files_try fuel w ps) (\<lambda>e.
             single_option w (JStr ''error'') (JStr (''Error loading files: '' @ str_error e))))"

section \<open>The viewer document\<close>

text \<open>The template, line by line; every line ends with its newline.\<close>

definition template_lines :: "string list" where
  \<open>template_lines =
    [
     ''<!doctype html>\<newline>'',
     ''<html>\<newline>'',
     ''  <head>\<newline>'',
     ''    <meta charset="utf-8" />\<newline>'',
     ''    <title>Trimble Connect Viewer</title>\<newline>'',
     ''    <style>\<newline>'',
     ''      html, body {\<newline>'',
     ''        margin: 0;\<newline>'',
     ''        padding: 0;\<newline>'',
     ''        height: 100%;\<newline>'',
     ''        width: 100%;\<newline>'',
     ''        overflow: hidden;\<newline>'',
     ''      }\<newline>'',
     ''      #tc-viewer {\<newline>'',
     ''        border: 0;\<newline>'',
     ''        width: 100%;\<newline>'',
     ''        height: 100%;\<newline>'',
     ''      }\<newline>'',
     ''    </style>\<newline>'',
     ''    <script src="https://components.connect.trimble.com/trimble-connect-workspace-api/index.js"></script>\<newline>'',
     ''  </head>\<newline>'',
     ''  <body>\<newline>'',
     ''    <iframe\<newline>'',
     ''      id="tc-viewer"\<newline>'',
     ''      src="about:blank"\<newline>'',
     ''      allowfullscreen\<newline>'',
     ''    ></iframe>\<newline>'',
     ''\<newline>'',
     ''    <script>\<newline>'',
     ''      const ACCESS_TOKEN = "__ACCESS_TOKEN__";\<newline>'',
     ''      const PROJECT_ID   = "__PROJECT_ID__";\<newline>'',
     ''      const MODEL_ID     = "__MODEL_ID__";\<newline>'',
     ''      const VERSION_ID   = "__VERSION_ID__";\<newline>'',
     ''\<newline>'',
     ''      (async function () {\<newline>'',
     ''        try {\<newline>'',
     ''          const iframe = document.getElementById("tc-viewer");\<newline>'',
     ''\<newline>'',
     ''          // Get Trimble's embedded app URL\<newline>'',
     ''          iframe.src = TrimbleConnectWorkspace.getConnectEmbedUrl();\<newline>'',
     ''\<newline>'',
     ''          // Connect Workspace API to the iframe\<newline>'',
     ''          const api = await TrimbleConnectWorkspace.connect(\<newline>'',
     ''            iframe,\<newline>'',
     ''            function (event, data) {\<newline>'',
     ''              console.log("TC event:", event, data);\<newline>'',
     ''            },\<newline>'',
     ''            30000\<newline>'',
     ''          );\<newline>'',
     ''\<newline>'',
     ''          // Pass the OAuth access token\<newline>'',
     ''          await api.embed.setTokens({\<newline>'',
     ''            accessToken: ACCESS_TOKEN\<newline>'',
     ''          });\<newline>'',
     ''\<newline>'',
     ''          // Configure which project/model to open\<newline>'',
     ''          const config = {\<newline>'',
     ''            projectId: PROJECT_ID,\<newline>'',
     ''            modelId: MODEL_ID\<newline>'',
     ''          };\<newline>'',
     ''\<newline>'',
     ''          if (VERSION_ID) {\<newline>'',
     ''            config.versionId = VERSION_ID;\<newline>'',
     ''          }\<newline>'',
     ''\<newline>'',
     ''          // Start 3D viewer\<newline>'',
     ''          await api.embed.init3DViewer(config);\<newline>'',
     ''        } catch (e) {\<newline>'',
     ''          console.error("Error initializing Trimble viewer:", e);\<newline>'',
     ''          alert("Failed to initialize Trimble Connect viewer. Check console.");\<newline>'',
     ''        }\<newline>'',
     ''      })();\<newline>'',
     ''    </script>\<newline>'',
     ''  </body>\<newline>'',
     ''</html>\<newline>''
    ]\<close>

definition VIEWER_HTML_TEMPLATE :: string where
  "VIEWER_HTML_TEMPLATE = concat template_lines"

text \<open>
  \<open>s.replace(old, new)\<close>: the occurrences of \<open>old\<close> are found from the left and do not
  overlap; an empty \<open>old\<close> matches before every character and at the end.
\<close>

function replace_str :: "string \<Rightarrow> string \<Rightarrow> string \<Rightarrow> string" where
  "replace_str [] old new = (if old = [] then new else [])"
| "replace_str (c # cs) old new =
     (if old = [] then new @ c # replace_str cs old new
      else if prefix old (c # cs) then new @ replace_str (drop (length old) (c # cs)) old new
      else c # replace_str cs old new)"
  by pat_completeness auto
termination
  by (relation "measure (\<lambda>(s, old, new). length s)") auto

text \<open>\<open>version_id or ""\<close> for an optional \<open>str\<close>.\<close>

definition or_empty :: "string option \<Rightarrow> string" where
  "or_empty v = (case v of None \<Rightarrow> '''' | Some s \<Rightarrow> if s = [] then '''' else s)"

definition build_trimble_viewer_html :: "string \<Rightarrow> string \<Rightarrow> string \<Rightarrow> string option \<Rightarrow> string" where
  "build_trimble_viewer_html access_token project_id model_id version_id =
     (let html = VIEWER_HTML_TEMPLATE;
          html = replace_str html ''__ACCESS_TOKEN__'' access_token;
          html = replace_str html ''__PROJECT_ID__'' project_id;
          html = replace_str html ''__MODEL_ID__'' model_id;
          html = replace_str html ''__VERSION_ID__'' (or_empty version_id)
      in html)"

text \<open>How many positions of a text a marker occurs at.\<close>

fun occurrences :: "string \<Rightarrow> string \<Rightarrow> nat" where
  "occurrences marker [] = (if marker = [] then 1 else 0)"
| "occurrences marker (c # cs) = (if prefix marker (c # cs) then 1 else 0) + occurrences marker cs"

text \<open>
  The template in three parts: the lines before the four constants, the four lines
  that declare them, and the lines after. A declaring line is the declaration, the
  value in double quotes, a semicolon and the newline.
\<close>

definition template_head :: "string list" where
  "template_head = take 29 template_lines"

definition template_tail :: "string list" where
  "template_tail = drop 33 template_lines"

definition const_line :: "string \<Rightarrow> string \<Rightarrow> string" where
  \<open>const_line decl v = decl @ CHR 0x22 # v @ CHR 0x22 # '';\<newline>''\<close>

text \<open>The document that has the four given texts as the values of the four constants.\<close>

definition viewer_document :: "string \<Rightarrow> string \<Rightarrow> string \<Rightarrow> string \<Rightarrow> string" where
  "viewer_document access_token project_id model_id version_id =
     concat (template_head @
       [const_line ''      const ACCESS_TOKEN = '' access_token,
        const_line ''      const PROJECT_ID   = '' project_id,
        const_line ''      const MODEL_ID     = '' model_id,
        const_line ''      const VERSION_ID   = '' version_id] @
       template_tail)"

text \<open>A text with two underscores in a row; a line that ends with the newline.\<close>

fun has_dunder :: "string \<Rightarrow> bool" where
  "has_dunder (c # d # cs) = ((c = CHR ''_'' \<and> d = CHR ''_'') \<or> has_dunder (d # cs))"
| "has_dunder cs = False"

definition ends_with_newline :: "string \<Rightarrow> bool" where
  "ends_with_newline l = (l \<noteq> [] \<and> last l = CHR 0x0A)"

section \<open>What the remote holds: folder trees\<close>

text \<open>
  A remote folder structure that is a finite tree: a file with its listed object, or
  a folder with its listed object and its children in the order the listing gives them.
\<close>

datatype tree = File item | Folder item "tree list"

fun node_item :: "tree \<Rightarrow> item" where
  "node_item (File it) = it"
| "node_item (Folder it ts) = it"

text \<open>The name the loop reads off an object, and the text an f-string makes of it.\<close>

definition item_name :: "item \<Rightarrow> json" where
  "item_name it = dict_get_default it ''name'' (JStr '''')"

definition name_text :: "item \<Rightarrow> string" where
  "name_text it = py_str (item_name it)"

text \<open>
  The remote answers as the tree says: every folder of the tree, asked for its items,
  answers with the objects of its children; the folders are the objects whose type tag
  the program reads as \<open>FOLDER\<close>, the files are the others.
\<close>

fun remote_tree :: "world \<Rightarrow> string \<Rightarrow> tree \<Rightarrow> bool" where
  "remote_tree w auth (File it) =
     (case item_type_of it of Inr ty \<Rightarrow> ty \<noteq> ''FOLDER'' | Inl e \<Rightarrow> False)"
| "remote_tree w auth (Folder it ts) =
     (item_type_of it = Inr ''FOLDER'' \<and>
      http_get w (folder_url (dict_get it ''id'')) auth = Inr (RArray (map node_item ts)) \<and>
      (\<forall>t \<in> set ts. remote_tree w auth t))"

definition remote_folder :: "world \<Rightarrow> string \<Rightarrow> json \<Rightarrow> tree list \<Rightarrow> bool" where
  "remote_folder w auth folder_id ts =
     (http_get w (folder_url folder_id) auth = Inr (RArray (map node_item ts)) \<and>
      (\<forall>t \<in> set ts. remote_tree w auth t))"

text \<open>The project's metadata names a root folder, and the root folder holds the trees \<open>ts\<close>.\<close>

definition remote_project :: "world \<Rightarrow> string \<Rightarrow> json \<Rightarrow> tree list \<Rightarrow> bool" where
  "remote_project w token project_id ts =
     (case http_get w (project_url project_id) (''Bearer '' @ token) of
        Inr (RObject proj) \<Rightarrow>
          truthy (dict_get proj ''rootId'') \<and>
          remote_folder w (''Bearer '' @ token) (dict_get proj ''rootId'') ts
      | _ \<Rightarrow> False)"

text \<open>Folder levels below a node; \<open>levels ts\<close> nested calls walk a folder holding \<open>ts\<close>.\<close>

fun depth :: "tree \<Rightarrow> nat" where
  "depth (File it) = 0"
| "depth (Folder it ts) = Suc (foldr max (map depth ts) 0)"

definition levels :: "tree list \<Rightarrow> nat" where
  "levels ts = Suc (foldr max (map depth ts) 0)"

text \<open>
  The files of a tree, depth first, children in listing order, each with the names of
  its ancestor folders from the outermost inwards.
\<close>

fun leaves :: "string list \<Rightarrow> tree \<Rightarrow> (string list \<times> item) list" where
  "leaves anc (File it) = [(anc, it)]"
| "leaves anc (Folder it ts) = concat (map (leaves (anc @ [name_text it])) ts)"

definition forest_leaves :: "tree list \<Rightarrow> (string list \<times> item) list" where
  "forest_leaves ts = concat (map (leaves []) ts)"

fun dfs_files :: "tree \<Rightarrow> item list" where
  "dfs_files (File it) = [it]"
| "dfs_files (Folder it ts) = concat (map dfs_files ts)"

fun count_files :: "tree \<Rightarrow> nat" where
  "count_files (File it) = 1"
| "count_files (Folder it ts) = sum_list (map count_files ts)"

text \<open>\<open>"/".join(names)\<close>, and the join with its leading slashes stripped.\<close>

fun join_slash :: "string list \<Rightarrow> string" where
  "join_slash [] = []"
| "join_slash [x] = x"
| "join_slash (x # y # ys) = x @ ''/'' @ join_slash (y # ys)"

definition path_of :: "string list \<Rightarrow> string" where
  "path_of names = lstrip_slash (join_slash names)"

definition only_slashes :: "string \<Rightarrow> bool" where
  "only_slashes s = list_all (\<lambda>c. c = CHR ''/'') s"

text \<open>The record expected for a file \<open>it\<close> below the folders named \<open>anc\<close>.\<close>

definition emitted :: "string list \<Rightarrow> item \<Rightarrow> file_record" where
  "emitted anc it =
     \<lparr>rec_id = dict_get it ''id'', rec_name = item_name it,
      rec_path = path_of (anc @ [name_text it]),
      rec_size = dict_get it ''size'',
      rec_modifiedAt = py_or (dict_get it ''modifiedAt'') (dict_get it ''modifiedOn''),
      rec_raw = it\<rparr>"

fun expected :: "string list \<Rightarrow> tree \<Rightarrow> file_record list" where
  "expected anc (File it) = [emitted anc it]"
| "expected anc (Folder it ts) = concat (map (expected (anc @ [name_text it])) ts)"

section \<open>Type tags, as the specification words them\<close>

text \<open>Comparison of two texts without regard to the case of ASCII letters.\<close>

definition lower_char :: "char \<Rightarrow> char" where
  "lower_char c =
     (let n = (of_char c :: nat) in if 65 \<le> n \<and> n \<le> 90 then char_of (n + 32) else c)"

definition caseless_eq :: "string \<Rightarrow> string \<Rightarrow> bool" where
  "caseless_eq a b = (map lower_char a = map lower_char b)"

text \<open>A field that holds a text or nothing (missing or \<open>null\<close>).\<close>

definition text_or_absent :: "json \<Rightarrow> bool" where
  "text_or_absent v = (case v of JNull \<Rightarrow> True | JStr s \<Rightarrow> True | _ \<Rightarrow> False)"

text \<open>
  The type tag with the fallback taken only when the primary field is absent (missing
  or \<open>null\<close>).
\<close>

definition tag_if_absent :: "item \<Rightarrow> json" where
  "tag_if_absent it =
     (if dict_get it ''type'' = JNull then dict_get it ''entityType'' else dict_get it ''type'')"

text \<open>
  The type tag with the fallback taken when the primary field is missing, \<open>null\<close> or
  empty; the empty text when the secondary field gives nothing either.
\<close>

definition tag_text :: "json \<Rightarrow> string" where
  "tag_text v = (case v of JStr s \<Rightarrow> s | _ \<Rightarrow> '''')"

definition effective_tag :: "item \<Rightarrow> string" where
  "effective_tag it =
     (if tag_text (dict_get it ''type'') \<noteq> '''' then tag_text (dict_get it ''type'')
      else tag_text (dict_get it ''entityType''))"

section \<open>Failed requests in a trace\<close>

definition failed :: "world \<Rightarrow> event \<Rightarrow> bool" where
  "failed w ev = (case ev of HttpGet url auth \<Rightarrow> isl (http_get w url auth) | TokenRequest \<Rightarrow> False)"

text \<open>
  Only the last request of a run may have failed, and then the run ends in that
  request's exception.
\<close>

definition aborts_at_failure :: "world \<Rightarrow> 'a io \<Rightarrow> bool" where
  "aborts_at_failure w m =
     (case m of
        None \<Rightarrow> True
      | Some (r, t) \<Rightarrow>
          (\<forall>ev \<in> set (butlast t). \<not> failed w ev) \<and>
          (t \<noteq> [] \<and> failed w (last t) \<longrightarrow>
             (case last t of
                HttpGet url auth \<Rightarrow> (case r of Inl e \<Rightarrow> http_get w url auth = Inl e | Inr x \<Rightarrow> False)
              | TokenRequest \<Rightarrow> False)))"

section \<open>Folder trees with a listing that fails\<close>

text \<open>
  A remote folder structure in which a folder may answer its listing with a failure:
  a file, a folder with its children, or a folder whose listing fails with the given
  exception.
\<close>

datatype ftree = FFile item | FFolder item "ftree list" | FBroken item error

fun fnode_item :: "ftree \<Rightarrow> item" where
  "fnode_item (FFile it) = it"
| "fnode_item (FFolder it ts) = it"
| "fnode_item (FBroken it e) = it"

fun remote_ftree :: "world \<Rightarrow> string \<Rightarrow> ftree \<Rightarrow> bool" where
  "remote_ftree w auth (FFile it) =
     (case item_type_of it of Inr ty \<Rightarrow> ty \<noteq> ''FOLDER'' | Inl e \<Rightarrow> False)"
| "remote_ftree w auth (FFolder it ts) =
     (item_type_of it = Inr ''FOLDER'' \<and>
      http_get w (folder_url (dict_get it ''id'')) auth = Inr (RArray (map fnode_item ts)) \<and>
      (\<forall>t \<in> set ts. remote_ftree w auth t))"
| "remote_ftree w auth (FBroken it e) =
     (item_type_of it = Inr ''FOLDER'' \<and>
      http_get w (folder_url (dict_get it ''id'')) auth = Inl e)"

definition remote_fproject :: "world \<Rightarrow> string \<Rightarrow> json \<Rightarrow> ftree list \<Rightarrow> bool" where
  "remote_fproject w token project_id ts =
     (case http_get w (project_url project_id) (''Bearer '' @ token) of
        Inr (RObject proj) \<Rightarrow>
          truthy (dict_get proj ''rootId'') \<and>
          http_get w (folder_url (dict_get proj ''rootId'')) (''Bearer '' @ token)
            = Inr (RArray (map fnode_item ts)) \<and>
          (\<forall>t \<in> set ts. remote_ftree w (''Bearer '' @ token) t)
      | _ \<Rightarrow> False)"

fun fdepth :: "ftree \<Rightarrow> nat" where
  "fdepth (FFile it) = 0"
| "fdepth (FFolder it ts) = Suc (foldr max (map fdepth ts) 0)"
| "fdepth (FBroken it e) = Suc 0"

definition flevels :: "ftree list \<Rightarrow> nat" where
  "flevels ts = Suc (foldr max (map fdepth ts) 0)"

text \<open>
  The first folder whose listing fails, going through the tree depth first with the
  children in listing order, and the exception it fails with.
\<close>

fun first_some :: "'a option list \<Rightarrow> 'a option" where
  "first_some [] = None"
| "first_some (None # xs) = first_some xs"
| "first_some (Some x # xs) = Some x"

fun first_failure :: "ftree \<Rightarrow> (item \<times> error) option" where
  "first_failure (FFile it) = None"
| "first_failure (FFolder it ts) = first_some (map first_failure ts)"
| "first_failure (FBroken it e) = Some (it, e)"

text \<open>
  A run that returns a value; a run that raises \<open>e\<close> with the failed request for
  \<open>url\<close> as the last one it issued.
\<close>

definition returns :: "'a io \<Rightarrow> bool" where
  "returns m = (case m of Some (Inr x, t) \<Rightarrow> True | _ \<Rightarrow> False)"

definition raises_at :: "world \<Rightarrow> string \<Rightarrow> string \<Rightarrow> error \<Rightarrow> 'a io \<Rightarrow> bool" where
  "raises_at w url auth e m =
     (case m of
        Some (Inl e', t) \<Rightarrow>
          e' = e \<and> t \<noteq> [] \<and> last t = HttpGet url auth \<and> http_get w url auth = Inl e
      | _ \<Rightarrow> False)"

text \<open>
  The entry \<open>get_project_files\<close> keeps of what \<open>list_project_files\<close> records for a
  file, and an outcome with a function applied to the value returned.
\<close>

definition entry_of :: "file_record \<Rightarrow> file_entry" where
  "entry_of r = \<lparr>entry_id = rec_id r, entry_name = rec_name r, entry_path = rec_path r\<rparr>"

definition io_map :: "('a \<Rightarrow> 'b) \<Rightarrow> 'a io \<Rightarrow> 'b io" where
  "io_map g m =
     (case m of
        None \<Rightarrow> None
      | Some (Inl e, t) \<Rightarrow> Some (Inl e, t)
      | Some (Inr x, t) \<Rightarrow> Some (Inr (g x), t))"

section \<open>Concrete remotes\<close>

text \<open>The refusal of an option value, in the concrete worlds below.\<close>

definition refusal :: "json \<Rightarrow> error" where
  "refusal v =
     (if v = JNull then PyError ''TypeError'' ''option value refused''
      else PyError ''ValueError'' ''option value refused'')"

text \<open>A remote that answers the listed URLs and has nothing else.\<close>

definition remote :: "(string \<times> (error + response)) list \<Rightarrow> world" where
  "remote table =
     \<lparr>get_access_token = Inr ''tok'',
      http_get = (\<lambda>url auth.
        case map_of table url of
          Some r \<Rightarrow> r
        | None \<Rightarrow> Inl (PyError ''HTTPError'' ''404 Client Error'')),
      refused_option = refusal\<rparr>"

definition a_ifc :: item where
  "a_ifc = [(''id'', JStr ''F1''), (''name'', JStr ''a.ifc''), (''type'', JStr ''FILE'')]"

definition b_ifc :: item where
  "b_ifc = [(''id'', JStr ''F2''), (''name'', JStr ''b.ifc''), (''size'', JInt 2048),
            (''modifiedOn'', JStr ''2025-12-16T12:34:56Z'')]"

definition sub_dir :: item where
  "sub_dir = [(''id'', JStr ''S''), (''name'', JStr ''Sub''), (''type'', JStr ''Folder'')]"

text \<open>Project \<open>P\<close>: the root lists \<open>a.ifc\<close> and the folder \<open>Sub\<close>, which holds \<open>b.ifc\<close>.\<close>

definition scenario_world :: world where
  "scenario_world = remote
     [(project_url (JStr ''P''), Inr (RObject [(''id'', JStr ''P''), (''rootId'', JStr ''R'')])),
      (folder_url (JStr ''R''), Inr (RArray [a_ifc, sub_dir])),
      (folder_url (JStr ''S''), Inr (RArray [b_ifc]))]"

definition scenario_tree :: "tree list" where
  "scenario_tree = [File a_ifc, Folder sub_dir [File b_ifc]]"

text \<open>The same project with the root listing the folder first.\<close>

definition scenario_world_rev :: world where
  "scenario_world_rev = remote
     [(project_url (JStr ''P''), Inr (RObject [(''id'', JStr ''P''), (''rootId'', JStr ''R'')])),
      (folder_url (JStr ''R''), Inr (RArray [sub_dir, a_ifc])),
      (folder_url (JStr ''S''), Inr (RArray [b_ifc]))]"

text \<open>A root that holds one file whose name is a single slash.\<close>

definition slash_file :: item where
  "slash_file = [(''id'', JStr ''F3''), (''name'', JStr ''/''), (''type'', JStr ''FILE'')]"

definition slash_world :: world where
  "slash_world = remote
     [(project_url (JStr ''P''), Inr (RObject [(''rootId'', JStr ''R'')])),
      (folder_url (JStr ''R''), Inr (RArray [slash_file]))]"

text \<open>A root that holds an object with an empty \<open>type\<close> and \<open>entityType\<close> \<open>FOLDER\<close>.\<close>

definition odd_dir :: item where
  "odd_dir = [(''id'', JStr ''S''), (''name'', JStr ''Sub''), (''type'', JStr ''''),
              (''entityType'', JStr ''FOLDER'')]"

definition odd_world :: world where
  "odd_world = remote
     [(project_url (JStr ''P''), Inr (RObject [(''rootId'', JStr ''R'')])),
      (folder_url (JStr ''R''), Inr (RArray [odd_dir])),
      (folder_url (JStr ''S''), Inr (RArray [a_ifc]))]"

text \<open>The scenario with the listing of \<open>Sub\<close> failing.\<close>

definition failing_world :: world where
  "failing_world = remote
     [(project_url (JStr ''P''), Inr (RObject [(''rootId'', JStr ''R'')])),
      (folder_url (JStr ''R''), Inr (RArray [a_ifc, sub_dir])),
      (folder_url (JStr ''S''), Inl (PyError ''HTTPError'' ''500 Server Error''))]"

text \<open>The failing scenario as a tree: \<open>a.ifc\<close>, then the folder \<open>Sub\<close> whose listing fails.\<close>

definition failing_tree :: "ftree list" where
  "failing_tree = [FFile a_ifc, FBroken sub_dir (PyError ''HTTPError'' ''500 Server Error'')]"

text \<open>An account with no projects.\<close>

definition empty_account_world :: world where
  "empty_account_world = remote [(API_BASE @ ''/projects'', Inr (RArray []))]"

text \<open>A project whose metadata has no \<open>rootId\<close>.\<close>

definition rootless_world :: world where
  "rootless_world = remote
     [(project_url (JStr ''P''), Inr (RObject [(''id'', JStr ''P''), (''name'', JStr ''Tower'')]))]"

text \<open>A root that holds one file whose \<open>modifiedAt\<close> is the empty text.\<close>

definition blank_stamp_file :: item where
  "blank_stamp_file = [(''id'', JStr ''F4''), (''name'', JStr ''c.ifc''), (''modifiedAt'', JStr '''')]"

definition blank_stamp_world :: world where
  "blank_stamp_world = remote
     [(project_url (JStr ''P''), Inr (RObject [(''rootId'', JStr ''R'')])),
      (folder_url (JStr ''R''), Inr (RArray [blank_stamp_file]))]"

text \<open>A token provider that fails.\<close>

definition tokenless_world :: world where
  "tokenless_world =
     \<lparr>get_access_token = Inl (PyError ''OAuth2Error'' ''no token''),
      http_get = (\<lambda>url auth. Inl (PyError ''HTTPError'' ''401 Client Error'')),
      refused_option = refusal\<rparr>"

section \<open>Properties of paths, sequencing and the walk\<close>

subsection \<open>Paths\<close>

lemma lstrip_lstrip_append: "lstrip_slash (lstrip_slash a @ b) = lstrip_slash (a @ b)"
  unfolding lstrip_slash_def
  by (induction a) auto

lemma join_slash_snoc: "names \<noteq> [] \<Longrightarrow> join_slash (names @ [n]) = join_slash names @ ''/'' @ n"
  by (induction names rule: join_slash.induct) auto

lemma item_path_of_path_of:
  "item_path_of (path_of anc) (item_name it) = path_of (anc @ [name_text it])"
proof (cases "anc = []")
  case True
  then show ?thesis
    by (simp add: item_path_of_def path_of_def name_text_def lstrip_slash_def)
next
  case False
  then show ?thesis
    by (simp add: item_path_of_def path_of_def name_text_def lstrip_lstrip_append join_slash_snoc)
qed

lemma lstrip_no_leading_slash: "\<not> prefix ''/'' (lstrip_slash s)"
  unfolding lstrip_slash_def
  by (induction s) auto

lemma lstrip_empty_iff: "lstrip_slash s = [] \<longleftrightarrow> only_slashes s"
  unfolding lstrip_slash_def only_slashes_def
  by (induction s) auto

lemma only_slashes_join:
  "names \<noteq> [] \<Longrightarrow> only_slashes (join_slash names) \<longleftrightarrow> list_all only_slashes names"
  by (induction names rule: join_slash.induct) (auto simp: only_slashes_def)

lemma path_of_empty_iff:
  "names \<noteq> [] \<Longrightarrow> path_of names = [] \<longleftrightarrow> list_all only_slashes names"
  by (simp add: path_of_def lstrip_empty_iff only_slashes_join)

subsection \<open>Sequencing\<close>

lemma io_bind_lift_Inr: "io_bind (io_lift (Inr x)) f = f x"
  by (simp add: io_bind_def io_lift_def split: option.splits prod.splits)

lemma io_bind_lift_Inl: "io_bind (io_lift (Inl e)) f = Some (Inl e, [])"
  by (simp add: io_bind_def io_lift_def)

lemma result_of_bind_Inr:
  "result_of m = Some (Inr x) \<Longrightarrow> result_of (io_bind m f) = result_of (f x)"
  by (auto simp: result_of_def io_bind_def split: option.splits prod.splits sum.splits)



subsection \<open>Walking a tree\<close>

lemma depth_le_foldr: "t \<in> set ts \<Longrightarrow> depth t \<le> foldr max (map depth ts) 0"
  by (induction ts) auto

lemma walk_items_forest:
  assumes rec: "\<And>it sub. Folder it sub \<in> set ts \<Longrightarrow>
            result_of (recurse (dict_get it ''id'') (path_of (anc @ [name_text it])))
              = Some (Inr (concat (map (expected (anc @ [name_text it])) sub)))"
    and ok: "\<forall>t \<in> set ts. remote_tree w auth t"
  shows "result_of (walk_items recurse (path_of anc) (map node_item ts) files)
           = Some (Inr (files @ concat (map (expected anc) ts)))"
  using assms
proof (induction ts arbitrary: files)
  case Nil
  then show ?case by (simp add: io_return_def result_of_def)
next
  case (Cons t ts)
  have tail: "\<And>fs. result_of (walk_items recurse (path_of anc) (map node_item ts) fs)
           = Some (Inr (fs @ concat (map (expected anc) ts)))"
    using Cons by simp
  show ?case
  proof (cases t)
    case (File it)
    with Cons.prems(2) obtain ty where ty: "item_type_of it = Inr ty" "ty \<noteq> ''FOLDER''"
      by (auto split: sum.splits)
    show ?thesis
      using ty File tail
      by (simp add: io_bind_lift_Inr Let_def emitted_def item_path_of_path_of
            item_name_def[symmetric])
  next
    case (Folder it sub)
    with Cons.prems(2) have ty: "item_type_of it = Inr ''FOLDER''" by simp
    have r: "result_of (recurse (dict_get it ''id'') (path_of (anc @ [name_text it])))
              = Some (Inr (concat (map (expected (anc @ [name_text it])) sub)))"
      using Cons.prems(1)[of it sub] Folder by simp
    show ?thesis
      using ty Folder tail
      by (simp add: io_bind_lift_Inr Let_def item_path_of_path_of item_name_def[symmetric]
            result_of_bind_Inr[OF r])
  qed
qed

lemma list_folder_forest:
  "remote_folder w auth folder_id ts \<Longrightarrow> levels ts \<le> fuel \<Longrightarrow>
   result_of (list_folder fuel w auth folder_id (path_of anc))
     = Some (Inr (concat (map (expected anc) ts)))"
proof (induction fuel arbitrary: folder_id ts anc)
  case 0
  then show ?case by (simp add: levels_def)
next
  case (Suc fuel)
  have resp: "http_get w (folder_url folder_id) auth = Inr (RArray (map node_item ts))"
    and ok: "\<forall>t \<in> set ts. remote_tree w auth t"
    using Suc.prems(1) by (simp_all add: remote_folder_def)
  have sub: "result_of (list_folder fuel w auth (dict_get i ''id'') (path_of (anc @ [name_text i])))
              = Some (Inr (concat (map (expected (anc @ [name_text i])) s)))"
    if "Folder i s \<in> set ts" for i s
  proof (rule Suc.IH)
    show "remote_folder w auth (dict_get i ''id'') s"
      using ok that by (force simp: remote_folder_def)
    show "levels s \<le> fuel"
      using depth_le_foldr[OF that] Suc.prems(2) by (simp add: levels_def)
  qed
  have "result_of (walk_items (list_folder fuel w auth) (path_of anc) (map node_item ts) [])
           = Some (Inr ([] @ concat (map (expected anc) ts)))"
    by (rule walk_items_forest[OF sub ok])
  then obtain t where "walk_items (list_folder fuel w auth) (path_of anc) (map node_item ts) []
           = Some (Inr (concat (map (expected anc) ts)), t)"
    by (auto simp: result_of_def)
  then show ?case
    using resp
    by (simp add: requests_get_def io_bind_def response_items_def io_lift_def result_of_def)
qed

lemma list_project_files_forest:
  assumes "remote_project w token project_id ts" and "levels ts \<le> fuel"
  shows "result_of (list_project_files fuel w project_id token)
           = Some (Inr (concat (map (expected []) ts)))"
proof -
  from assms(1) obtain proj where
    proj: "http_get w (project_url project_id) (''Bearer '' @ token) = Inr (RObject proj)"
    and root: "truthy (dict_get proj ''rootId'')"
    and tree: "remote_folder w (''Bearer '' @ token) (dict_get proj ''rootId'') ts"
    by (auto simp: remote_project_def split: sum.splits response.splits)
  have "result_of (list_folder fuel w (''Bearer '' @ token) (dict_get proj ''rootId'') (path_of []))
          = Some (Inr (concat (map (expected []) ts)))"
    by (rule list_folder_forest[OF tree assms(2)])
  then obtain t where "list_folder fuel w (''Bearer '' @ token) (dict_get proj ''rootId'') ''''
          = Some (Inr (concat (map (expected []) ts)), t)"
    by (auto simp: result_of_def path_of_def lstrip_slash_def)
  then show ?thesis
    using proj root
    by (simp add: list_project_files_def requests_get_def io_bind_def response_get_def
          io_lift_def result_of_def)
qed

lemma expected_leaves: "expected anc t = map (\<lambda>(a, i). emitted a i) (leaves anc t)"
  by (induction anc t rule: expected.induct) (simp_all add: map_concat cong: map_cong)

lemma expected_forest:
  "concat (map (expected []) ts) = map (\<lambda>(a, i). emitted a i) (forest_leaves ts)"
  by (simp add: forest_leaves_def map_concat expected_leaves cong: map_cong)

lemma length_leaves: "length (leaves anc t) = count_files t"
  by (induction anc t rule: leaves.induct) (simp_all add: length_concat comp_def cong: map_cong)

lemma length_forest_leaves: "length (forest_leaves ts) = sum_list (map count_files ts)"
  by (simp add: forest_leaves_def length_concat comp_def length_leaves)

lemma snd_leaves: "map snd (leaves anc t) = dfs_files t"
  by (induction anc t rule: leaves.induct) (simp_all add: map_concat cong: map_cong)

lemma snd_forest_leaves: "map snd (forest_leaves ts) = concat (map dfs_files ts)"
  by (simp add: forest_leaves_def map_concat snd_leaves comp_def)

section \<open>The paths of the emitted records\<close>

text \<open>
  C1. Every record \<open>list_project_files\<close> emits for a file has as its path the names of
  the file's ancestor folders, outermost first, and the file's own name, joined with
  \<open>/\<close> and stripped of leading slashes; no path starts with a slash, whatever names
  are empty. (A name that is \<open>null\<close> enters the path as the f-string prints it.)
\<close>

theorem emitted_paths_are_stripped_joins:
  assumes "remote_project w token project_id ts" and "levels ts \<le> fuel"
  shows "\<exists>recs. result_of (list_project_files fuel w project_id token) = Some (Inr recs) \<and>
           map rec_path recs
             = map (\<lambda>(anc, it). lstrip_slash (join_slash (anc @ [name_text it]))) (forest_leaves ts) \<and>
           (\<forall>r \<in> set recs. \<not> prefix ''/'' (rec_path r))"
proof -
  let ?recs = "map (\<lambda>(a, i). emitted a i) (forest_leaves ts)"
  have "result_of (list_project_files fuel w project_id token) = Some (Inr ?recs)"
    using list_project_files_forest[OF assms] by (simp add: expected_forest)
  moreover have "map rec_path ?recs
      = map (\<lambda>(anc, it). lstrip_slash (join_slash (anc @ [name_text it]))) (forest_leaves ts)"
    by (simp add: emitted_def path_of_def split_def)
  moreover have "\<forall>r \<in> set ?recs. \<not> prefix ''/'' (rec_path r)"
    by (auto simp: emitted_def path_of_def lstrip_no_leading_slash)
  ultimately show ?thesis by blast
qed

text \<open>In the scenario project, the file in \<open>Sub\<close> gets the path \<open>Sub/b.ifc\<close>.\<close>

theorem emitted_paths_witness:
  "remote_project scenario_world ''tok'' (JStr ''P'') scenario_tree \<and> levels scenario_tree \<le> 2 \<and>
   (\<exists>recs. result_of (list_project_files 2 scenario_world (JStr ''P'') ''tok'') = Some (Inr recs) \<and>
      map rec_path recs = [''a.ifc'', ''Sub/b.ifc''])"
proof -
  have h1: "remote_project scenario_world ''tok'' (JStr ''P'') scenario_tree" by code_simp
  have h2: "levels scenario_tree \<le> 2" by code_simp
  have l: "map (\<lambda>(anc, it). lstrip_slash (join_slash (anc @ [name_text it]))) (forest_leaves scenario_tree)
      = [''a.ifc'', ''Sub/b.ifc'']" by code_simp
  from emitted_paths_are_stripped_joins[OF h1 h2] obtain recs where
    "result_of (list_project_files 2 scenario_world (JStr ''P'') ''tok'') = Some (Inr recs)"
    "map rec_path recs = [''a.ifc'', ''Sub/b.ifc'']"
    unfolding l by auto
  with h1 h2 show ?thesis by auto
qed

section \<open>The number of records and empty paths\<close>

text \<open>
  C2, as the code has it. For a remote folder tree, \<open>list_project_files\<close> returns one
  record for each file of the tree, at whatever depth. A record's path is empty exactly
  when the file's name and the names of all its ancestor folders consist of slashes
  only (the empty name among them); a name that is a single slash is not empty and
  still gives the empty path.
\<close>

theorem one_record_per_file:
  assumes "remote_project w token project_id ts" and "levels ts \<le> fuel"
  shows "\<exists>recs. result_of (list_project_files fuel w project_id token) = Some (Inr recs) \<and>
           length recs = sum_list (map count_files ts) \<and>
           list_all2 (\<lambda>r (anc, it). (rec_path r = []) = list_all only_slashes (anc @ [name_text it]))
             recs (forest_leaves ts)"
proof -
  let ?recs = "map (\<lambda>(a, i). emitted a i) (forest_leaves ts)"
  have "result_of (list_project_files fuel w project_id token) = Some (Inr ?recs)"
    using list_project_files_forest[OF assms] by (simp add: expected_forest)
  moreover have "length ?recs = sum_list (map count_files ts)"
    by (simp add: length_forest_leaves)
  moreover have "list_all2 (\<lambda>r (anc, it). (rec_path r = []) = list_all only_slashes (anc @ [name_text it]))
             ?recs (forest_leaves ts)"
    by (simp add: list_all2_map1 list_all2_same emitted_def path_of_empty_iff split_def)
  ultimately show ?thesis by blast
qed

theorem one_record_per_file_witness:
  "remote_project scenario_world ''tok'' (JStr ''P'') scenario_tree \<and> levels scenario_tree \<le> 2 \<and>
   (\<exists>recs. result_of (list_project_files 2 scenario_world (JStr ''P'') ''tok'') = Some (Inr recs) \<and>
      length recs = 2 \<and> (\<forall>r \<in> set recs. rec_path r \<noteq> []))"
proof -
  have h1: "remote_project scenario_world ''tok'' (JStr ''P'') scenario_tree" by code_simp
  have h2: "levels scenario_tree \<le> 2" by code_simp
  have n: "sum_list (map count_files scenario_tree) = 2" by code_simp
  have l: "forest_leaves scenario_tree = [([], a_ifc), ([''Sub''], b_ifc)]" by code_simp
  have e: "\<not> list_all only_slashes [name_text a_ifc]" "\<not> list_all only_slashes [''Sub'', name_text b_ifc]"
    by code_simp+
  from one_record_per_file[OF h1 h2] obtain recs where
    r: "result_of (list_project_files 2 scenario_world (JStr ''P'') ''tok'') = Some (Inr recs)"
    and "length recs = 2"
    and "list_all2 (\<lambda>r (anc, it). (rec_path r = []) = list_all only_slashes (anc @ [name_text it]))
             recs [([], a_ifc), ([''Sub''], b_ifc)]"
    unfolding n l by auto
  then have "length recs = 2 \<and> (\<forall>r \<in> set recs. rec_path r \<noteq> [])"
    using e by (auto simp: list_all2_Cons2)
  with r h1 h2 show ?thesis by auto
qed

text \<open>A file named \<open>/\<close> in the root folder: its name is not empty, its path is.\<close>

theorem slash_name_empty_path:
  "remote_project slash_world ''tok'' (JStr ''P'') [File slash_file] \<and>
   name_text slash_file = ''/'' \<and>
   result_of (list_project_files 1 slash_world (JStr ''P'') ''tok'')
     = Some (Inr [\<lparr>rec_id = JStr ''F3'', rec_name = JStr ''/'', rec_path = '''',
                   rec_size = JNull, rec_modifiedAt = JNull, rec_raw = slash_file\<rparr>])"
  by code_simp

section \<open>The order of the records\<close>

text \<open>
  C6. The records come in depth-first order, the children of each folder in the order
  its listing gives them, with no sorting: the source objects of the records are the
  files of the tree read depth first. In the project whose root lists \<open>a.ifc\<close> and
  then the folder \<open>Sub\<close> holding \<open>b.ifc\<close>, the records are exactly those two, with the
  paths \<open>a.ifc\<close> and \<open>Sub/b.ifc\<close>, in that order; when the root lists \<open>Sub\<close> first, the
  order is the other one.
\<close>

theorem records_in_listing_order:
  "(remote_project w token project_id ts \<longrightarrow> levels ts \<le> fuel \<longrightarrow>
      (\<exists>recs. result_of (list_project_files fuel w project_id token) = Some (Inr recs) \<and>
         map rec_raw recs = concat (map dfs_files ts))) \<and>
   (\<exists>recs. result_of (list_project_files 2 scenario_world (JStr ''P'') ''tok'') = Some (Inr recs) \<and>
      map rec_path recs = [''a.ifc'', ''Sub/b.ifc'']) \<and>
   (\<exists>recs. result_of (list_project_files 2 scenario_world_rev (JStr ''P'') ''tok'') = Some (Inr recs) \<and>
      map rec_path recs = [''Sub/b.ifc'', ''a.ifc''])"
proof (intro conjI impI)
  assume h: "remote_project w token project_id ts" "levels ts \<le> fuel"
  let ?recs = "map (\<lambda>(a, i). emitted a i) (forest_leaves ts)"
  have "result_of (list_project_files fuel w project_id token) = Some (Inr ?recs)"
    using list_project_files_forest[OF h] by (simp add: expected_forest)
  moreover have "map rec_raw ?recs = concat (map dfs_files ts)"
    by (simp add: snd_forest_leaves[symmetric] emitted_def split_def comp_def)
  ultimately show "\<exists>recs. result_of (list_project_files fuel w project_id token) = Some (Inr recs) \<and>
         map rec_raw recs = concat (map dfs_files ts)" by blast
next
  have a: "result_of (list_project_files 2 scenario_world (JStr ''P'') ''tok'')
          = Some (Inr [emitted [] a_ifc, emitted [''Sub''] b_ifc])"
    by code_simp
  have b: "map rec_path [emitted [] a_ifc, emitted [''Sub''] b_ifc] = [''a.ifc'', ''Sub/b.ifc'']"
    by code_simp
  show "\<exists>recs. result_of (list_project_files 2 scenario_world (JStr ''P'') ''tok'') = Some (Inr recs) \<and>
      map rec_path recs = [''a.ifc'', ''Sub/b.ifc'']"
    by (rule exI[where x = "[emitted [] a_ifc, emitted [''Sub''] b_ifc]"], rule conjI, rule a, rule b)
next
  have a: "result_of (list_project_files 2 scenario_world_rev (JStr ''P'') ''tok'')
          = Some (Inr [emitted [''Sub''] b_ifc, emitted [] a_ifc])"
    by code_simp
  have b: "map rec_path [emitted [''Sub''] b_ifc, emitted [] a_ifc] = [''Sub/b.ifc'', ''a.ifc'']"
    by code_simp
  show "\<exists>recs. result_of (list_project_files 2 scenario_world_rev (JStr ''P'') ''tok'') = Some (Inr recs) \<and>
      map rec_path recs = [''Sub/b.ifc'', ''a.ifc'']"
    by (rule exI[where x = "[emitted [''Sub''] b_ifc, emitted [] a_ifc]"], rule conjI, rule a, rule b)
qed

theorem records_in_listing_order_witness:
  "remote_project scenario_world ''tok'' (JStr ''P'') scenario_tree \<and> levels scenario_tree \<le> 2 \<and>
   (\<exists>recs. result_of (list_project_files 2 scenario_world (JStr ''P'') ''tok'') = Some (Inr recs) \<and>
      map rec_raw recs = [a_ifc, b_ifc])"
proof -
  have h1: "remote_project scenario_world ''tok'' (JStr ''P'') scenario_tree" by code_simp
  have h2: "levels scenario_tree \<le> 2" by code_simp
  have d: "concat (map dfs_files scenario_tree) = [a_ifc, b_ifc]" by code_simp
  have "\<exists>recs. result_of (list_project_files 2 scenario_world (JStr ''P'') ''tok'') = Some (Inr recs) \<and>
         map rec_raw recs = concat (map dfs_files scenario_tree)"
    using records_in_listing_order[of scenario_world "''tok''" "JStr ''P''" scenario_tree 2] h1 h2
    by blast
  with h1 h2 show ?thesis unfolding d by auto
qed

section \<open>The fields of a record\<close>

text \<open>The loop only ever appends to the list it builds: no record is changed once made.\<close>

lemma walk_items_appends:
  "walk_items recurse current_path items files = Some (Inr out, t) \<Longrightarrow> prefix files out"
proof (induction items arbitrary: files t)
  case Nil
  then show ?case by (simp add: io_return_def)
next
  case (Cons item items)
  show ?case
  proof (cases "item_type_of item")
    case (Inl e)
    with Cons.prems show ?thesis by (simp add: io_bind_lift_Inl)
  next
    case (Inr ty)
    show ?thesis
    proof (cases "ty = ''FOLDER''")
      case False
      with Inr Cons.prems obtain fs where
        "walk_items recurse current_path items (files @ fs) = Some (Inr out, t)"
        by (auto simp: io_bind_lift_Inr Let_def)
      from Cons.IH[OF this] show ?thesis by (rule append_prefixD)
    next
      case True
      with Inr Cons.prems have
        "io_bind (recurse (dict_get item ''id'')
                   (item_path_of current_path (dict_get_default item ''name'' (JStr ''''))))
           (\<lambda>sub. walk_items recurse current_path items (files @ sub)) = Some (Inr out, t)"
        by (simp add: io_bind_lift_Inr Let_def)
      then obtain sub t' where
        "walk_items recurse current_path items (files @ sub) = Some (Inr out, t')"
        by (auto simp: io_bind_def split: option.splits prod.splits sum.splits)
      from Cons.IH[OF this] show ?thesis by (rule append_prefixD)
    qed
  qed
qed

text \<open>
  What a nested call returns goes into the caller's list as it is, after the records
  the caller already holds.
\<close>

lemma walk_items_keeps_nested:
  assumes "item_type_of it = Inr ''FOLDER''"
    and "recurse (dict_get it ''id'') (item_path_of current_path (item_name it)) = Some (Inr sub, t')"
    and "walk_items recurse current_path (it # items) files = Some (Inr out, t)"
  shows "prefix (files @ sub) out"
proof -
  from assms have
    "io_bind (Some (Inr sub, t'))
       (\<lambda>sub. walk_items recurse current_path items (files @ sub)) = Some (Inr out, t)"
    by (simp add: io_bind_lift_Inr Let_def item_name_def)
  then obtain t'' where "walk_items recurse current_path items (files @ sub) = Some (Inr out, t'')"
    by (auto simp: io_bind_def split: option.splits prod.splits)
  then show ?thesis by (rule walk_items_appends)
qed

text \<open>
  C8, as the code has it. In every record, \<open>id\<close> is the source object's \<open>id\<close> and
  \<open>size\<close> its \<open>size\<close> (\<open>null\<close> when the object has none), \<open>raw\<close> is the source object
  itself, and \<open>modifiedAt\<close> is the source's \<open>modifiedAt\<close> when that has a true value
  (it is there, not \<open>null\<close>, not empty, not zero), otherwise the source's \<open>modifiedOn\<close>.
  No record is changed after it is made: each record of the result is, in all its six
  fields, the record made from its source object and the names of the folders above
  it; the loop's list only ever grows at its end, so a record once in it stays as it
  is and where it is; and the records a nested call returns enter the caller's list
  unchanged.
\<close>

theorem record_fields_copy_source:
  assumes "remote_project w token project_id ts" and "levels ts \<le> fuel"
  shows "(\<exists>recs. result_of (list_project_files fuel w project_id token) = Some (Inr recs) \<and>
           map rec_raw recs = concat (map dfs_files ts) \<and>
           (\<forall>r \<in> set recs.
              rec_id r = dict_get (rec_raw r) ''id'' \<and>
              rec_size r = dict_get (rec_raw r) ''size'' \<and>
              rec_modifiedAt r =
                (if truthy (dict_get (rec_raw r) ''modifiedAt'')
                 then dict_get (rec_raw r) ''modifiedAt''
                 else dict_get (rec_raw r) ''modifiedOn'')) \<and>
           recs = map (\<lambda>(anc, it).
                    \<lparr>rec_id = dict_get it ''id'',
                     rec_name = dict_get_default it ''name'' (JStr ''''),
                     rec_path = lstrip_slash (join_slash (anc @ [name_text it])),
                     rec_size = dict_get it ''size'',
                     rec_modifiedAt =
                       (if truthy (dict_get it ''modifiedAt'') then dict_get it ''modifiedAt''
                        else dict_get it ''modifiedOn''),
                     rec_raw = it\<rparr>) (forest_leaves ts)) \<and>
         (\<forall>recurse current_path items files out t.
            walk_items recurse current_path items files = Some (Inr out, t) \<longrightarrow> prefix files out) \<and>
         (\<forall>recurse current_path it items files out t sub t'.
            item_type_of it = Inr ''FOLDER'' \<longrightarrow>
            recurse (dict_get it ''id'') (item_path_of current_path (item_name it))
              = Some (Inr sub, t') \<longrightarrow>
            walk_items recurse current_path (it # items) files = Some (Inr out, t) \<longrightarrow>
            prefix (files @ sub) out)"
proof (intro conjI allI impI)
  let ?recs = "map (\<lambda>(a, i). emitted a i) (forest_leaves ts)"
  have "result_of (list_project_files fuel w project_id token) = Some (Inr ?recs)"
    using list_project_files_forest[OF assms] by (simp add: expected_forest)
  moreover have "map rec_raw ?recs = concat (map dfs_files ts)"
    by (simp add: snd_forest_leaves[symmetric] emitted_def split_def comp_def)
  moreover have "\<forall>r \<in> set ?recs.
              rec_id r = dict_get (rec_raw r) ''id'' \<and>
              rec_size r = dict_get (rec_raw r) ''size'' \<and>
              rec_modifiedAt r =
                (if truthy (dict_get (rec_raw r) ''modifiedAt'')
                 then dict_get (rec_raw r) ''modifiedAt''
                 else dict_get (rec_raw r) ''modifiedOn'')"
    by (auto simp: emitted_def py_or_def)
  moreover have "?recs = map (\<lambda>(anc, it).
                    \<lparr>rec_id = dict_get it ''id'',
                     rec_name = dict_get_default it ''name'' (JStr ''''),
                     rec_path = lstrip_slash (join_slash (anc @ [name_text it])),
                     rec_size = dict_get it ''size'',
                     rec_modifiedAt =
                       (if truthy (dict_get it ''modifiedAt'') then dict_get it ''modifiedAt''
                        else dict_get it ''modifiedOn''),
                     rec_raw = it\<rparr>) (forest_leaves ts)"
    by (simp add: emitted_def py_or_def path_of_def item_name_def)
  ultimately show "\<exists>recs. result_of (list_project_files fuel w project_id token) = Some (Inr recs) \<and>
           map rec_raw recs = concat (map dfs_files ts) \<and>
           (\<forall>r \<in> set recs.
              rec_id r = dict_get (rec_raw r) ''id'' \<and>
              rec_size r = dict_get (rec_raw r) ''size'' \<and>
              rec_modifiedAt r =
                (if truthy (dict_get (rec_raw r) ''modifiedAt'')
                 then dict_get (rec_raw r) ''modifiedAt''
                 else dict_get (rec_raw r) ''modifiedOn'')) \<and>
           recs = map (\<lambda>(anc, it).
                    \<lparr>rec_id = dict_get it ''id'',
                     rec_name = dict_get_default it ''name'' (JStr ''''),
                     rec_path = lstrip_slash (join_slash (anc @ [name_text it])),
                     rec_size = dict_get it ''size'',
                     rec_modifiedAt =
                       (if truthy (dict_get it ''modifiedAt'') then dict_get it ''modifiedAt''
                        else dict_get it ''modifiedOn''),
                     rec_raw = it\<rparr>) (forest_leaves ts)"
    by blast
next
  fix recurse :: "json \<Rightarrow> string \<Rightarrow> file_record list io"
  fix current_path items files out t
  assume "walk_items recurse current_path items files = Some (Inr out, t)"
  then show "prefix files out" by (rule walk_items_appends)
next
  fix recurse :: "json \<Rightarrow> string \<Rightarrow> file_record list io"
  fix current_path it items files out t sub t'
  assume "item_type_of it = Inr ''FOLDER''"
    and "recurse (dict_get it ''id'') (item_path_of current_path (item_name it)) = Some (Inr sub, t')"
    and "walk_items recurse current_path (it # items) files = Some (Inr out, t)"
  then show "prefix (files @ sub) out" by (rule walk_items_keeps_nested)
qed

theorem record_fields_witness:
  "remote_project scenario_world ''tok'' (JStr ''P'') scenario_tree \<and> levels scenario_tree \<le> 2 \<and>
   (\<exists>recs. result_of (list_project_files 2 scenario_world (JStr ''P'') ''tok'') = Some (Inr recs) \<and>
      map rec_raw recs = [a_ifc, b_ifc] \<and>
      (\<forall>r \<in> set recs.
         rec_id r = dict_get (rec_raw r) ''id'' \<and>
         rec_size r = dict_get (rec_raw r) ''size'' \<and>
         rec_modifiedAt r =
           (if truthy (dict_get (rec_raw r) ''modifiedAt'')
            then dict_get (rec_raw r) ''modifiedAt''
            else dict_get (rec_raw r) ''modifiedOn'')) \<and>
      recs = [\<lparr>rec_id = JStr ''F1'', rec_name = JStr ''a.ifc'', rec_path = ''a.ifc'',
               rec_size = JNull, rec_modifiedAt = JNull, rec_raw = a_ifc\<rparr>,
              \<lparr>rec_id = JStr ''F2'', rec_name = JStr ''b.ifc'', rec_path = ''Sub/b.ifc'',
               rec_size = JInt 2048, rec_modifiedAt = JStr ''2025-12-16T12:34:56Z'',
               rec_raw = b_ifc\<rparr>])"
proof -
  have h1: "remote_project scenario_world ''tok'' (JStr ''P'') scenario_tree" by code_simp
  have h2: "levels scenario_tree \<le> 2" by code_simp
  have d: "concat (map dfs_files scenario_tree) = [a_ifc, b_ifc]" by code_simp
  have l: "map (\<lambda>(anc, it).
                    \<lparr>rec_id = dict_get it ''id'',
                     rec_name = dict_get_default it ''name'' (JStr ''''),
                     rec_path = lstrip_slash (join_slash (anc @ [name_text it])),
                     rec_size = dict_get it ''size'',
                     rec_modifiedAt =
                       (if truthy (dict_get it ''modifiedAt'') then dict_get it ''modifiedAt''
                        else dict_get it ''modifiedOn''),
                     rec_raw = it\<rparr>) (forest_leaves scenario_tree)
         = [\<lparr>rec_id = JStr ''F1'', rec_name = JStr ''a.ifc'', rec_path = ''a.ifc'',
               rec_size = JNull, rec_modifiedAt = JNull, rec_raw = a_ifc\<rparr>,
              \<lparr>rec_id = JStr ''F2'', rec_name = JStr ''b.ifc'', rec_path = ''Sub/b.ifc'',
               rec_size = JInt 2048, rec_modifiedAt = JStr ''2025-12-16T12:34:56Z'',
               rec_raw = b_ifc\<rparr>]"
    by code_simp
  have ex: "\<exists>recs. result_of (list_project_files 2 scenario_world (JStr ''P'') ''tok'') = Some (Inr recs) \<and>
      map rec_raw recs = [a_ifc, b_ifc] \<and>
      (\<forall>r \<in> set recs.
         rec_id r = dict_get (rec_raw r) ''id'' \<and>
         rec_size r = dict_get (rec_raw r) ''size'' \<and>
         rec_modifiedAt r =
           (if truthy (dict_get (rec_raw r) ''modifiedAt'')
            then dict_get (rec_raw r) ''modifiedAt''
            else dict_get (rec_raw r) ''modifiedOn'')) \<and>
      recs = [\<lparr>rec_id = JStr ''F1'', rec_name = JStr ''a.ifc'', rec_path = ''a.ifc'',
               rec_size = JNull, rec_modifiedAt = JNull, rec_raw = a_ifc\<rparr>,
              \<lparr>rec_id = JStr ''F2'', rec_name = JStr ''b.ifc'', rec_path = ''Sub/b.ifc'',
               rec_size = JInt 2048, rec_modifiedAt = JStr ''2025-12-16T12:34:56Z'',
               rec_raw = b_ifc\<rparr>]"
    using record_fields_copy_source[OF h1 h2, THEN conjunct1] unfolding d l .
  show ?thesis
    by (rule conjI[OF h1 conjI[OF h2 ex]])
qed

text \<open>
  A file whose only time stamp is \<open>modifiedAt\<close>, holding the empty text: the field is
  there, and the record's \<open>modifiedAt\<close> is \<open>null\<close>.
\<close>

theorem blank_modifiedAt_is_dropped:
  "map_of blank_stamp_file ''modifiedAt'' = Some (JStr '''') \<and>
   map_of blank_stamp_file ''modifiedOn'' = None \<and>
   result_of (list_project_files 1 blank_stamp_world (JStr ''P'') ''tok'')
     = Some (Inr [\<lparr>rec_id = JStr ''F4'', rec_name = JStr ''c.ifc'', rec_path = ''c.ifc'',
                   rec_size = JNull, rec_modifiedAt = JNull, rec_raw = blank_stamp_file\<rparr>])"
  by code_simp

section \<open>A project without a root folder\<close>

text \<open>
  C5, as the code has it. When the project's metadata gives no root folder identifier
  (\<open>rootId\<close> missing, \<open>null\<close> or empty), \<open>list_project_files\<close> raises
  \<open>Exception("Could not find root folder ID for this project.")\<close>; the only request
  it has issued is the one for the metadata, so no folder was listed and nothing is
  tried again.
\<close>

theorem missing_root_fails_before_listing:
  assumes "http_get w (project_url project_id) (''Bearer '' @ token) = Inr (RObject proj)"
    and "\<not> truthy (dict_get proj ''rootId'')"
  shows "list_project_files fuel w project_id token
           = Some (Inl (PyError ''Exception'' ''Could not find root folder ID for this project.''),
                   [HttpGet (project_url project_id) (''Bearer '' @ token)])"
  using assms
  by (simp add: list_project_files_def requests_get_def io_bind_def io_lift_def response_get_def
        io_raise_def)

theorem missing_root_witness:
  "http_get rootless_world (project_url (JStr ''P'')) (''Bearer '' @ ''tok'')
     = Inr (RObject [(''id'', JStr ''P''), (''name'', JStr ''Tower'')]) \<and>
   \<not> truthy (dict_get [(''id'', JStr ''P''), (''name'', JStr ''Tower'')] ''rootId'') \<and>
   list_project_files 3 rootless_world (JStr ''P'') ''tok''
     = Some (Inl (PyError ''Exception'' ''Could not find root folder ID for this project.''),
             [HttpGet (project_url (JStr ''P'')) (''Bearer '' @ ''tok'')])"
proof -
  have h1: "http_get rootless_world (project_url (JStr ''P'')) (''Bearer '' @ ''tok'')
     = Inr (RObject [(''id'', JStr ''P''), (''name'', JStr ''Tower'')])"
    by code_simp
  have h2: "\<not> truthy (dict_get [(''id'', JStr ''P''), (''name'', JStr ''Tower'')] ''rootId'')"
    by code_simp
  show ?thesis
    using missing_root_fails_before_listing[OF h1 h2, of 3] h1 h2 by simp
qed

text \<open>The exception is not an \<open>IntegrationError("root folder not found")\<close>.\<close>

theorem missing_root_is_plain_exception:
  "result_of (list_project_files 3 rootless_world (JStr ''P'') ''tok'')
     = Some (Inl (PyError ''Exception'' ''Could not find root folder ID for this project.'')) \<and>
   result_of (list_project_files 3 rootless_world (JStr ''P'') ''tok'')
     \<noteq> Some (Inl (PyError ''IntegrationError'' ''root folder not found''))"
  by code_simp

section \<open>Folders and leaves\<close>

lemma of_char_upper_char:
  "(of_char (upper_char c) :: nat)
     = (if 97 \<le> (of_char c :: nat) \<and> (of_char c :: nat) \<le> 122 then of_char c - 32 else of_char c)"
proof -
  have "(of_char c :: nat) - 32 < 256"
    using nat_of_char_less_256[of c] by arith
  then show ?thesis
    by (simp add: upper_char_def Let_def)
qed

lemma case_fold_nat:
  fixes n m :: nat
  shows "((if 97 \<le> n \<and> n \<le> 122 then n - 32 else n) = (if 97 \<le> m \<and> m \<le> 122 then m - 32 else m))
       = ((if 65 \<le> n \<and> n \<le> 90 then n + 32 else n) = (if 65 \<le> m \<and> m \<le> 90 then m + 32 else m))"
  by auto

lemma of_char_lower_char:
  "(of_char (lower_char c) :: nat)
     = (if 65 \<le> (of_char c :: nat) \<and> (of_char c :: nat) \<le> 90 then of_char c + 32 else of_char c)"
  by (simp add: lower_char_def Let_def)

lemma upper_char_eq_iff: "(upper_char c = upper_char d) = (lower_char c = lower_char d)"
proof -
  have "(upper_char c = upper_char d) = ((of_char (upper_char c) :: nat) = of_char (upper_char d))"
    by simp
  also have "\<dots> = ((of_char (lower_char c) :: nat) = of_char (lower_char d))"
    unfolding of_char_upper_char of_char_lower_char by (rule case_fold_nat)
  also have "\<dots> = (lower_char c = lower_char d)"
    by simp
  finally show ?thesis .
qed

lemma map_upper_char_eq_iff:
  "(map upper_char s = map upper_char u) = (map lower_char s = map lower_char u)"
proof (induction s arbitrary: u)
  case Nil
  then show ?case by auto
next
  case (Cons c s)
  then show ?case by (cases u) (auto simp: upper_char_eq_iff)
qed

lemma upper_is_FOLDER_iff: "(map upper_char s = ''FOLDER'') = caseless_eq s ''FOLDER''"
proof -
  have "''FOLDER'' = map upper_char ''FOLDER''" by code_simp
  then have "(map upper_char s = ''FOLDER'') = (map upper_char s = map upper_char ''FOLDER'')"
    by simp
  then show ?thesis
    by (simp only: map_upper_char_eq_iff caseless_eq_def)
qed

lemma item_type_of_effective_tag:
  assumes "text_or_absent (dict_get it ''type'')" and "text_or_absent (dict_get it ''entityType'')"
  shows "item_type_of it = Inr (map upper_char (effective_tag it))"
  using assms
  by (cases "dict_get it ''type''"; cases "dict_get it ''entityType''")
     (simp_all add: item_type_of_def py_or_def py_upper_def effective_tag_def tag_text_def
        text_or_absent_def)

text \<open>
  C3, as the code has it. Take a listed object whose \<open>type\<close> and \<open>entityType\<close> are
  each a text, \<open>null\<close> or missing, and let its tag be \<open>type\<close>, or \<open>entityType\<close> when
  \<open>type\<close> is missing, \<open>null\<close> or empty (the empty text when neither gives one). If
  the tag equals \<open>FOLDER\<close> up to the case of its letters, the loop calls \<open>list_folder\<close>
  for the object and adds what that returns, and no record for the object itself;
  with any other tag it adds one record for the object and makes no nested call.
\<close>

theorem folder_iff_tag_is_FOLDER:
  assumes "text_or_absent (dict_get it ''type'')" and "text_or_absent (dict_get it ''entityType'')"
  shows "(caseless_eq (effective_tag it) ''FOLDER'' \<longrightarrow>
            walk_items recurse current_path (it # items) files
              = io_bind (recurse (dict_get it ''id'') (item_path_of current_path (item_name it)))
                  (\<lambda>sub. walk_items recurse current_path items (files @ sub))) \<and>
         (\<not> caseless_eq (effective_tag it) ''FOLDER'' \<longrightarrow>
            walk_items recurse current_path (it # items) files
              = walk_items recurse current_path items
                  (files @ [\<lparr>rec_id = dict_get it ''id'', rec_name = item_name it,
                             rec_path = item_path_of current_path (item_name it),
                             rec_size = dict_get it ''size'',
                             rec_modifiedAt =
                               py_or (dict_get it ''modifiedAt'') (dict_get it ''modifiedOn''),
                             rec_raw = it\<rparr>]))"
  using item_type_of_effective_tag[OF assms] upper_is_FOLDER_iff[of "effective_tag it"]
  by (simp add: io_bind_lift_Inr Let_def item_name_def)

theorem folder_iff_tag_witness:
  "text_or_absent (dict_get sub_dir ''type'') \<and> text_or_absent (dict_get sub_dir ''entityType'') \<and>
   caseless_eq (effective_tag sub_dir) ''FOLDER'' \<and>
   text_or_absent (dict_get b_ifc ''type'') \<and> text_or_absent (dict_get b_ifc ''entityType'') \<and>
   \<not> caseless_eq (effective_tag b_ifc) ''FOLDER'' \<and>
   walk_items (list_folder 1 scenario_world ''Bearer tok'') '''' [sub_dir, b_ifc] []
     = io_bind (list_folder 1 scenario_world ''Bearer tok'' (JStr ''S'') ''Sub'')
         (\<lambda>sub. io_return (sub @ [\<lparr>rec_id = JStr ''F2'', rec_name = JStr ''b.ifc'',
                                     rec_path = ''b.ifc'', rec_size = JInt 2048,
                                     rec_modifiedAt = JStr ''2025-12-16T12:34:56Z'',
                                     rec_raw = b_ifc\<rparr>]))"
proof -
  have s: "text_or_absent (dict_get sub_dir ''type'')" "text_or_absent (dict_get sub_dir ''entityType'')"
    "caseless_eq (effective_tag sub_dir) ''FOLDER''"
    by code_simp+
  have b: "text_or_absent (dict_get b_ifc ''type'')" "text_or_absent (dict_get b_ifc ''entityType'')"
    "\<not> caseless_eq (effective_tag b_ifc) ''FOLDER''"
    by code_simp+
  have v: "dict_get sub_dir ''id'' = JStr ''S''" "item_path_of '''' (item_name sub_dir) = ''Sub''"
    "dict_get b_ifc ''id'' = JStr ''F2''" "item_name b_ifc = JStr ''b.ifc''"
    "item_path_of '''' (item_name b_ifc) = ''b.ifc''" "dict_get b_ifc ''size'' = JInt 2048"
    "py_or (dict_get b_ifc ''modifiedAt'') (dict_get b_ifc ''modifiedOn'') = JStr ''2025-12-16T12:34:56Z''"
    "item_path_of '''' (JStr ''b.ifc'') = ''b.ifc''"
    by code_simp+
  have outer: "walk_items (list_folder 1 scenario_world ''Bearer tok'') '''' [sub_dir, b_ifc] []
     = io_bind (list_folder 1 scenario_world ''Bearer tok'' (dict_get sub_dir ''id'') (item_path_of '''' (item_name sub_dir)))
         (\<lambda>sub. walk_items (list_folder 1 scenario_world ''Bearer tok'') '''' [b_ifc] ([] @ sub))"
    by (rule folder_iff_tag_is_FOLDER[OF s(1,2), THEN conjunct1, rule_format, OF s(3)])
  have inner: "walk_items (list_folder 1 scenario_world ''Bearer tok'') '''' [b_ifc] fs
     = walk_items (list_folder 1 scenario_world ''Bearer tok'') '''' []
         (fs @ [\<lparr>rec_id = dict_get b_ifc ''id'', rec_name = item_name b_ifc,
                  rec_path = item_path_of '''' (item_name b_ifc),
                  rec_size = dict_get b_ifc ''size'',
                  rec_modifiedAt = py_or (dict_get b_ifc ''modifiedAt'') (dict_get b_ifc ''modifiedOn''),
                  rec_raw = b_ifc\<rparr>])" for fs
    by (rule folder_iff_tag_is_FOLDER[OF b(1,2), THEN conjunct2, rule_format, OF b(3)])
  have "walk_items (list_folder 1 scenario_world ''Bearer tok'') '''' [sub_dir, b_ifc] []
     = io_bind (list_folder 1 scenario_world ''Bearer tok'' (JStr ''S'') ''Sub'')
         (\<lambda>sub. io_return (sub @ [\<lparr>rec_id = JStr ''F2'', rec_name = JStr ''b.ifc'',
                                     rec_path = ''b.ifc'', rec_size = JInt 2048,
                                     rec_modifiedAt = JStr ''2025-12-16T12:34:56Z'',
                                     rec_raw = b_ifc\<rparr>]))"
    unfolding outer inner v by simp
  with s b show ?thesis by blast
qed

text \<open>
  An object with the empty text as its \<open>type\<close> and \<open>FOLDER\<close> as its \<open>entityType\<close>: its
  primary tag is there and is empty, not \<open>FOLDER\<close>, and the object is walked as a
  folder, its child coming out with the path \<open>Sub/a.ifc\<close>.
\<close>

theorem empty_type_falls_back:
  "map_of odd_dir ''type'' = Some (JStr '''') \<and>
   tag_if_absent odd_dir = JStr '''' \<and>
   \<not> caseless_eq '''' ''FOLDER'' \<and>
   result_of (list_project_files 2 odd_world (JStr ''P'') ''tok'')
     = Some (Inr [\<lparr>rec_id = JStr ''F1'', rec_name = JStr ''a.ifc'', rec_path = ''Sub/a.ifc'',
                   rec_size = JNull, rec_modifiedAt = JNull, rec_raw = a_ifc\<rparr>])"
  by code_simp

section \<open>A failing request\<close>

lemma aborts_at_failure_lift: "aborts_at_failure w (io_lift r)"
  by (simp add: aborts_at_failure_def io_lift_def)

lemma aborts_at_failure_return: "aborts_at_failure w (io_return x)"
  by (simp add: aborts_at_failure_def io_return_def)

lemma aborts_at_failure_raise: "aborts_at_failure w (io_raise e)"
  by (simp add: aborts_at_failure_def io_raise_def)

lemma aborts_at_failure_requests_get: "aborts_at_failure w (requests_get w url auth)"
  by (auto simp: aborts_at_failure_def requests_get_def failed_def split: sum.splits)

lemma returned_no_failure:
  assumes "aborts_at_failure w (Some (Inr x, t))"
  shows "\<forall>ev \<in> set t. \<not> failed w ev"
proof (cases "t = []")
  case True
  then show ?thesis by simp
next
  case False
  then have t: "t = butlast t @ [last t]" by simp
  have "\<not> failed w (last t)"
    using assms False by (auto simp: aborts_at_failure_def split: event.splits)
  moreover have "\<forall>ev \<in> set (butlast t). \<not> failed w ev"
    using assms by (simp add: aborts_at_failure_def)
  ultimately show ?thesis
    using t by (metis Un_iff empty_iff empty_set insert_iff list.simps(15) set_append)
qed

lemma aborts_at_failure_bind:
  assumes m: "aborts_at_failure w m" and f: "\<And>x. aborts_at_failure w (f x)"
  shows "aborts_at_failure w (io_bind m f)"
proof (cases m)
  case None
  then show ?thesis by (simp add: io_bind_def aborts_at_failure_def)
next
  case (Some p)
  obtain r t where p: "p = (r, t)" by (cases p)
  show ?thesis
  proof (cases r)
    case (Inl e)
    with Some p m show ?thesis
      by (auto simp: io_bind_def aborts_at_failure_def split: event.splits)
  next
    case (Inr x)
    have "aborts_at_failure w (Some (Inr x, t))"
      using m Some p Inr by simp
    then have ok: "\<forall>ev \<in> set t. \<not> failed w ev"
      by (rule returned_no_failure)
    show ?thesis
    proof (cases "f x")
      case None
      with Some p Inr show ?thesis by (simp add: io_bind_def aborts_at_failure_def)
    next
      case fx: (Some q)
      obtain r' t' where q: "q = (r', t')" by (cases q)
      have b: "io_bind m f = Some (r', t @ t')"
        using Some p Inr fx q by (simp add: io_bind_def)
      show ?thesis
      proof (cases "t' = []")
        case True
        have "\<forall>ev \<in> set (butlast t). \<not> failed w ev"
          using ok by (auto dest: in_set_butlastD)
        moreover have "t \<noteq> [] \<longrightarrow> \<not> failed w (last t)"
          using ok by simp
        ultimately show ?thesis
          unfolding b using True by (auto simp: aborts_at_failure_def)
      next
        case False
        have "aborts_at_failure w (Some (r', t'))"
          using f[of x] fx q by simp
        then show ?thesis
          unfolding b using False ok
          by (auto simp: aborts_at_failure_def butlast_append)
      qed
    qed
  qed
qed

lemma aborts_at_failure_walk_items:
  assumes "\<And>folder_id path. aborts_at_failure w (recurse folder_id path)"
  shows "aborts_at_failure w (walk_items recurse current_path items files)"
proof (induction items arbitrary: files)
  case Nil
  then show ?case by (simp add: aborts_at_failure_return)
next
  case (Cons item items)
  show ?case
    unfolding walk_items.simps Let_def
    by (intro aborts_at_failure_bind aborts_at_failure_lift)
       (auto intro!: aborts_at_failure_bind assms Cons.IH)
qed

lemma aborts_at_failure_list_folder:
  "aborts_at_failure w (list_folder fuel w auth folder_id current_path)"
proof (induction fuel arbitrary: folder_id current_path)
  case 0
  then show ?case by (simp add: aborts_at_failure_def)
next
  case (Suc fuel)
  show ?case
    unfolding list_folder.simps
    by (intro aborts_at_failure_bind aborts_at_failure_requests_get aborts_at_failure_lift
          aborts_at_failure_walk_items Suc.IH)
qed

lemma aborts_at_failure_list_project_files:
  "aborts_at_failure w (list_project_files fuel w project_id token)"
  unfolding list_project_files_def Let_def
  by (intro aborts_at_failure_bind aborts_at_failure_requests_get aborts_at_failure_lift)
     (auto intro: aborts_at_failure_raise aborts_at_failure_list_folder)

subsection \<open>A run over a tree with a failing listing ends, in that failure\<close>

lemma returns_return: "returns (io_return x)"
  by (simp add: returns_def io_return_def)

lemma returns_bind:
  assumes "returns m" and "\<And>x. returns (f x)"
  shows "returns (io_bind m f)"
proof -
  from assms(1) obtain x t where m: "m = Some (Inr x, t)"
    by (auto simp: returns_def split: option.splits prod.splits sum.splits)
  from assms(2)[of x] obtain y t' where "f x = Some (Inr y, t')"
    by (auto simp: returns_def split: option.splits prod.splits sum.splits)
  with m show ?thesis by (simp add: io_bind_def returns_def)
qed

lemma raises_at_bind_left:
  assumes "raises_at w url auth e m"
  shows "raises_at w url auth e (io_bind m f)"
proof -
  from assms obtain t where "m = Some (Inl e, t)" "t \<noteq> []" "last t = HttpGet url auth"
    "http_get w url auth = Inl e"
    by (auto simp: raises_at_def split: option.splits prod.splits sum.splits)
  then show ?thesis by (simp add: io_bind_def raises_at_def)
qed

lemma raises_at_bind_right:
  assumes "returns m" and "\<And>x. raises_at w url auth e (f x)"
  shows "raises_at w url auth e (io_bind m f)"
proof -
  from assms(1) obtain x t where m: "m = Some (Inr x, t)"
    by (auto simp: returns_def split: option.splits prod.splits sum.splits)
  from assms(2)[of x] obtain t' where "f x = Some (Inl e, t')" "t' \<noteq> []"
    "last t' = HttpGet url auth" "http_get w url auth = Inl e"
    by (auto simp: raises_at_def split: option.splits prod.splits sum.splits)
  with m show ?thesis by (simp add: io_bind_def raises_at_def)
qed

lemma fdepth_le_foldr: "t \<in> set ts \<Longrightarrow> fdepth t \<le> foldr max (map fdepth ts) 0"
  by (induction ts) auto

lemma walk_items_fforest:
  assumes ok: "\<forall>t \<in> set ts. remote_ftree w auth t"
    and rec_ok: "\<And>it sub p. FFolder it sub \<in> set ts \<Longrightarrow> first_some (map first_failure sub) = None
            \<Longrightarrow> returns (recurse (dict_get it ''id'') p)"
    and rec_fail: "\<And>it sub p b e. FFolder it sub \<in> set ts
            \<Longrightarrow> first_some (map first_failure sub) = Some (b, e)
            \<Longrightarrow> raises_at w (folder_url (dict_get b ''id'')) auth e (recurse (dict_get it ''id'') p)"
    and rec_broken: "\<And>it e p. FBroken it e \<in> set ts
            \<Longrightarrow> raises_at w (folder_url (dict_get it ''id'')) auth e (recurse (dict_get it ''id'') p)"
  shows "(first_some (map first_failure ts) = None \<longrightarrow>
            returns (walk_items recurse current_path (map fnode_item ts) files)) \<and>
         (\<forall>b e. first_some (map first_failure ts) = Some (b, e) \<longrightarrow>
            raises_at w (folder_url (dict_get b ''id'')) auth e
              (walk_items recurse current_path (map fnode_item ts) files))"
  using assms
proof (induction ts arbitrary: files)
  case Nil
  then show ?case by (simp add: returns_return)
next
  case (Cons t ts)
  have tail: "(first_some (map first_failure ts) = None \<longrightarrow>
            returns (walk_items recurse current_path (map fnode_item ts) fs)) \<and>
         (\<forall>b e. first_some (map first_failure ts) = Some (b, e) \<longrightarrow>
            raises_at w (folder_url (dict_get b ''id'')) auth e
              (walk_items recurse current_path (map fnode_item ts) fs))" for fs
  proof (rule Cons.IH)
    show "\<forall>t \<in> set ts. remote_ftree w auth t"
      using Cons.prems(1) by simp
    show "returns (recurse (dict_get it ''id'') p)"
      if "FFolder it sub \<in> set ts" "first_some (map first_failure sub) = None" for it sub p
      using Cons.prems(2)[of it sub p] that by simp
    show "raises_at w (folder_url (dict_get b ''id'')) auth e (recurse (dict_get it ''id'') p)"
      if "FFolder it sub \<in> set ts" "first_some (map first_failure sub) = Some (b, e)"
      for it sub p b e
      using Cons.prems(3)[of it sub b e p] that by simp
    show "raises_at w (folder_url (dict_get it ''id'')) auth e (recurse (dict_get it ''id'') p)"
      if "FBroken it e \<in> set ts" for it e p
      using Cons.prems(4)[of it e p] that by simp
  qed
  show ?case
  proof (cases t)
    case (FFile it)
    with Cons.prems(1) obtain ty where ty: "item_type_of it = Inr ty" "ty \<noteq> ''FOLDER''"
      by (auto split: sum.splits)
    show ?thesis
      using ty FFile tail by (simp add: io_bind_lift_Inr Let_def)
  next
    case (FBroken it e)
    with Cons.prems(1) have ty: "item_type_of it = Inr ''FOLDER''" by simp
    have "raises_at w (folder_url (dict_get it ''id'')) auth e (recurse (dict_get it ''id'') p)" for p
      using Cons.prems(4)[of it e p] FBroken by simp
    then show ?thesis
      using ty FBroken by (simp add: io_bind_lift_Inr Let_def raises_at_bind_left)
  next
    case (FFolder it sub)
    with Cons.prems(1) have ty: "item_type_of it = Inr ''FOLDER''" by simp
    show ?thesis
    proof (cases "first_some (map first_failure sub)")
      case None
      have r: "returns (recurse (dict_get it ''id'') p)" for p
        using Cons.prems(2)[of it sub p] FFolder None by simp
      show ?thesis
        using ty FFolder None tail r
        by (auto simp: io_bind_lift_Inr Let_def intro!: returns_bind raises_at_bind_right)
    next
      case (Some be)
      obtain b e where be: "be = (b, e)" by (cases be)
      have "raises_at w (folder_url (dict_get b ''id'')) auth e (recurse (dict_get it ''id'') p)" for p
        using Cons.prems(3)[of it sub b e p] FFolder Some be by simp
      then show ?thesis
        using ty FFolder Some be by (simp add: io_bind_lift_Inr Let_def raises_at_bind_left)
    qed
  qed
qed

lemma list_folder_broken:
  assumes "http_get w (folder_url folder_id) auth = Inl e"
  shows "raises_at w (folder_url folder_id) auth e (list_folder (Suc fuel) w auth folder_id path)"
  using assms by (simp add: requests_get_def io_bind_def raises_at_def)

lemma list_folder_fforest:
  assumes "http_get w (folder_url folder_id) auth = Inr (RArray (map fnode_item ts))"
    and "\<forall>t \<in> set ts. remote_ftree w auth t" and "flevels ts \<le> fuel"
  shows "(first_some (map first_failure ts) = None \<longrightarrow>
            returns (list_folder fuel w auth folder_id path)) \<and>
         (\<forall>b e. first_some (map first_failure ts) = Some (b, e) \<longrightarrow>
            raises_at w (folder_url (dict_get b ''id'')) auth e
              (list_folder fuel w auth folder_id path))"
  using assms
proof (induction fuel arbitrary: folder_id ts path)
  case 0
  then show ?case by (simp add: flevels_def)
next
  case (Suc fuel)
  have sub: "(first_some (map first_failure s) = None \<longrightarrow>
            returns (list_folder fuel w auth (dict_get i ''id'') p)) \<and>
         (\<forall>b e. first_some (map first_failure s) = Some (b, e) \<longrightarrow>
            raises_at w (folder_url (dict_get b ''id'')) auth e
              (list_folder fuel w auth (dict_get i ''id'') p))"
    if "FFolder i s \<in> set ts" for i s p
  proof (rule Suc.IH)
    show "http_get w (folder_url (dict_get i ''id'')) auth = Inr (RArray (map fnode_item s))"
      and "\<forall>t \<in> set s. remote_ftree w auth t"
      using Suc.prems(2) that by force+
    show "flevels s \<le> fuel"
      using fdepth_le_foldr[OF that] Suc.prems(3) by (simp add: flevels_def)
  qed
  have broken: "raises_at w (folder_url (dict_get i ''id'')) auth e
                  (list_folder fuel w auth (dict_get i ''id'') p)"
    if "FBroken i e \<in> set ts" for i e p
  proof -
    have "fdepth (FBroken i e) \<le> fuel"
      using fdepth_le_foldr[OF that] Suc.prems(3) by (simp add: flevels_def)
    then obtain k where k: "fuel = Suc k" by (cases fuel) auto
    have "http_get w (folder_url (dict_get i ''id'')) auth = Inl e"
      using Suc.prems(2) that by force
    then show ?thesis unfolding k by (rule list_folder_broken)
  qed
  have walk: "(first_some (map first_failure ts) = None \<longrightarrow>
            returns (walk_items (list_folder fuel w auth) path (map fnode_item ts) [])) \<and>
         (\<forall>b e. first_some (map first_failure ts) = Some (b, e) \<longrightarrow>
            raises_at w (folder_url (dict_get b ''id'')) auth e
              (walk_items (list_folder fuel w auth) path (map fnode_item ts) []))"
    by (rule walk_items_fforest[OF Suc.prems(2)]) (use sub broken in blast)+
  have step: "list_folder (Suc fuel) w auth folder_id path
          = io_bind (requests_get w (folder_url folder_id) auth) (\<lambda>resp.
              walk_items (list_folder fuel w auth) path (map fnode_item ts) [])"
    using Suc.prems(1)
    by (simp add: requests_get_def io_bind_def response_items_def io_lift_def
          split: option.splits prod.splits)
  have req: "returns (requests_get w (folder_url folder_id) auth)"
    using Suc.prems(1) by (simp add: requests_get_def returns_def)
  show ?case
    unfolding step using walk req
    by (auto intro!: returns_bind raises_at_bind_right)
qed

lemma list_project_files_fforest:
  assumes "remote_fproject w token project_id ts" and "flevels ts \<le> fuel"
    and "first_some (map first_failure ts) = Some (b, e)"
  shows "raises_at w (folder_url (dict_get b ''id'')) (''Bearer '' @ token) e
           (list_project_files fuel w project_id token)"
proof -
  from assms(1) obtain proj where
    proj: "http_get w (project_url project_id) (''Bearer '' @ token) = Inr (RObject proj)"
    and root: "truthy (dict_get proj ''rootId'')"
    and listing: "http_get w (folder_url (dict_get proj ''rootId'')) (''Bearer '' @ token)
            = Inr (RArray (map fnode_item ts))"
    and ok: "\<forall>t \<in> set ts. remote_ftree w (''Bearer '' @ token) t"
    by (auto simp: remote_fproject_def split: sum.splits response.splits)
  have walk: "raises_at w (folder_url (dict_get b ''id'')) (''Bearer '' @ token) e
          (list_folder fuel w (''Bearer '' @ token) (dict_get proj ''rootId'') '''')"
    using list_folder_fforest[OF listing ok assms(2), of "''''"] assms(3) by blast
  have step: "list_project_files fuel w project_id token
          = io_bind (requests_get w (project_url project_id) (''Bearer '' @ token)) (\<lambda>resp.
              list_folder fuel w (''Bearer '' @ token) (dict_get proj ''rootId'') '''')"
    using proj root
    by (simp add: list_project_files_def requests_get_def io_bind_def response_get_def io_lift_def
          split: option.splits prod.splits)
  have req: "returns (requests_get w (project_url project_id) (''Bearer '' @ token))"
    using proj by (simp add: requests_get_def returns_def)
  show ?thesis
    unfolding step using walk req by (auto intro!: raises_at_bind_right)
qed

text \<open>
  C4. When a folder of the remote tree fails to list, \<open>list_project_files\<close> ends, given
  a recursion budget that covers the tree: it raises the exception of the first
  listing that fails, so it returns no records at all, whatever it had collected
  before; the failed request is the last one it issued, and every request before it
  had succeeded. The same holds when the root folder itself fails to list. And in
  whatever way a run ended, if a request it issued had failed, then the run ended in
  that request's exception, with no records, and issued no request after it.
\<close>

theorem failure_is_all_or_nothing:
  "(remote_fproject w token project_id ts \<longrightarrow> flevels ts \<le> fuel \<longrightarrow>
    first_some (map first_failure ts) = Some (b, e) \<longrightarrow>
      (\<exists>t. list_project_files fuel w project_id token = Some (Inl e, t) \<and> t \<noteq> [] \<and>
           last t = HttpGet (folder_url (dict_get b ''id'')) (''Bearer '' @ token) \<and>
           http_get w (folder_url (dict_get b ''id'')) (''Bearer '' @ token) = Inl e \<and>
           (\<forall>ev \<in> set (butlast t). \<not> failed w ev))) \<and>
   (http_get w (project_url project_id) (''Bearer '' @ token) = Inr (RObject proj) \<longrightarrow>
    truthy (dict_get proj ''rootId'') \<longrightarrow>
    http_get w (folder_url (dict_get proj ''rootId'')) (''Bearer '' @ token) = Inl e \<longrightarrow>
      list_project_files (Suc fuel) w project_id token
        = Some (Inl e, [HttpGet (project_url project_id) (''Bearer '' @ token),
                        HttpGet (folder_url (dict_get proj ''rootId'')) (''Bearer '' @ token)])) \<and>
   (list_project_files fuel w project_id token = Some (r, t') \<longrightarrow>
    HttpGet url auth \<in> set t' \<longrightarrow> http_get w url auth = Inl e \<longrightarrow>
      r = Inl e \<and> last t' = HttpGet url auth \<and> (\<forall>recs. r \<noteq> Inr recs))"
proof (intro conjI impI)
  assume h: "remote_fproject w token project_id ts" "flevels ts \<le> fuel"
    "first_some (map first_failure ts) = Some (b, e)"
  from list_project_files_fforest[OF h] obtain t where
    run: "list_project_files fuel w project_id token = Some (Inl e, t)" and ne: "t \<noteq> []"
    and last: "last t = HttpGet (folder_url (dict_get b ''id'')) (''Bearer '' @ token)"
    and err: "http_get w (folder_url (dict_get b ''id'')) (''Bearer '' @ token) = Inl e"
    by (auto simp: raises_at_def split: option.splits prod.splits sum.splits)
  have "aborts_at_failure w (Some (Inl e :: error + file_record list, t))"
    using aborts_at_failure_list_project_files[of w fuel project_id token] run by simp
  then have "\<forall>ev \<in> set (butlast t). \<not> failed w ev"
    by (simp add: aborts_at_failure_def)
  with run ne last err
  show "\<exists>t. list_project_files fuel w project_id token = Some (Inl e, t) \<and> t \<noteq> [] \<and>
           last t = HttpGet (folder_url (dict_get b ''id'')) (''Bearer '' @ token) \<and>
           http_get w (folder_url (dict_get b ''id'')) (''Bearer '' @ token) = Inl e \<and>
           (\<forall>ev \<in> set (butlast t). \<not> failed w ev)"
    by blast
next
  assume "http_get w (project_url project_id) (''Bearer '' @ token) = Inr (RObject proj)"
    "truthy (dict_get proj ''rootId'')"
    "http_get w (folder_url (dict_get proj ''rootId'')) (''Bearer '' @ token) = Inl e"
  then show "list_project_files (Suc fuel) w project_id token
        = Some (Inl e, [HttpGet (project_url project_id) (''Bearer '' @ token),
                        HttpGet (folder_url (dict_get proj ''rootId'')) (''Bearer '' @ token)])"
    by (simp add: list_project_files_def requests_get_def io_bind_def response_get_def io_lift_def
          Let_def)
next
  assume run: "list_project_files fuel w project_id token = Some (r, t')"
    and req: "HttpGet url auth \<in> set t'"
    and err: "http_get w url auth = Inl e"
  have inv: "aborts_at_failure w (Some (r, t'))"
    using aborts_at_failure_list_project_files[of w fuel project_id token] run by simp
  have bad: "failed w (HttpGet url auth)"
    using err by (simp add: failed_def)
  from req have ne: "t' \<noteq> []" by auto
  then have t: "t' = butlast t' @ [last t']" by simp
  have "HttpGet url auth \<notin> set (butlast t')"
    using inv bad by (auto simp: aborts_at_failure_def)
  with req t have last: "last t' = HttpGet url auth"
    by (metis Un_iff empty_iff empty_set insert_iff list.simps(15) set_append)
  with inv ne bad err have re: "r = Inl e"
    by (auto simp: aborts_at_failure_def split: sum.splits)
  show "r = Inl e" by (rule re)
  show "last t' = HttpGet url auth" by (rule last)
  show "\<forall>recs. r \<noteq> Inr recs" using re by simp
qed

text \<open>
  The scenario with the listing of \<open>Sub\<close> failing: \<open>a.ifc\<close> had been collected, and the
  run ends in the failure after three requests.
\<close>

theorem failure_is_all_or_nothing_witness:
  "remote_fproject failing_world ''tok'' (JStr ''P'') failing_tree \<and>
   flevels failing_tree \<le> 2 \<and>
   first_some (map first_failure failing_tree)
     = Some (sub_dir, PyError ''HTTPError'' ''500 Server Error'') \<and>
   (\<exists>t. list_project_files 2 failing_world (JStr ''P'') ''tok''
           = Some (Inl (PyError ''HTTPError'' ''500 Server Error''), t) \<and>
        last t = HttpGet (folder_url (JStr ''S'')) ''Bearer tok'' \<and>
        (\<forall>ev \<in> set (butlast t). \<not> failed failing_world ev)) \<and>
   list_project_files 2 failing_world (JStr ''P'') ''tok''
     = Some (Inl (PyError ''HTTPError'' ''500 Server Error''),
             [HttpGet (project_url (JStr ''P'')) ''Bearer tok'',
              HttpGet (folder_url (JStr ''R'')) ''Bearer tok'',
              HttpGet (folder_url (JStr ''S'')) ''Bearer tok''])"
proof -
  have h1: "remote_fproject failing_world ''tok'' (JStr ''P'') failing_tree" by code_simp
  have h2: "flevels failing_tree \<le> 2" by code_simp
  have h3: "first_some (map first_failure failing_tree)
     = Some (sub_dir, PyError ''HTTPError'' ''500 Server Error'')" by code_simp
  have i: "dict_get sub_dir ''id'' = JStr ''S''" by code_simp
  have run: "list_project_files 2 failing_world (JStr ''P'') ''tok''
     = Some (Inl (PyError ''HTTPError'' ''500 Server Error''),
             [HttpGet (project_url (JStr ''P'')) ''Bearer tok'',
              HttpGet (folder_url (JStr ''R'')) ''Bearer tok'',
              HttpGet (folder_url (JStr ''S'')) ''Bearer tok''])" by code_simp
  from failure_is_all_or_nothing[THEN conjunct1, rule_format, OF h1 h2 h3]
  have "\<exists>t. list_project_files 2 failing_world (JStr ''P'') ''tok''
           = Some (Inl (PyError ''HTTPError'' ''500 Server Error''), t) \<and>
        last t = HttpGet (folder_url (JStr ''S'')) ''Bearer tok'' \<and>
        (\<forall>ev \<in> set (butlast t). \<not> failed failing_world ev)"
    unfolding i by auto
  with h1 h2 h3 run show ?thesis by blast
qed

section \<open>The option lists\<close>

lemma single_option_text:
  "v \<noteq> '''' \<Longrightarrow>
   single_option w (JStr v) (JStr l) = Some (Inr [\<lparr>opt_value = JStr v, opt_label = JStr l\<rparr>], [])"
  by (simp add: single_option_def OptionListElement_def io_bind_def io_lift_def io_return_def)

lemma single_option_refused:
  "single_option w (JStr '''') l = Some (Inl (refused_option w (JStr '''')), [])"
  by (simp add: single_option_def OptionListElement_def io_bind_def io_lift_def)

text \<open>
  The placeholders with the empty value never reach the caller: building them raises
  inside the \<open>try\<close> block, and what comes back is the \<open>error\<close> option.
\<close>

lemma no_projects_is_an_error:
  assumes "get_access_token w = Inr token"
    and "http_get w (API_BASE @ ''/projects'') (''Bearer '' @ token) = Inr (RArray [])"
  shows "get_trimble_projects w
           = Some (Inr [\<lparr>opt_value = JStr ''error'',
                         opt_label = JStr (''Error loading projects: ''
                                             @ str_error (refused_option w (JStr '''')))\<rparr>],
                   [TokenRequest, HttpGet (API_BASE @ ''/projects'') (''Bearer '' @ token)])"
  using assms
  by (simp add: get_trimble_projects_def get_trimble_projects_try_def io_try_def io_bind_def
        integration_get_access_token_def requests_get_def io_lift_def response_projects_def
        single_option_refused single_option_text Let_def)

lemma missing_root_is_an_error:
  assumes "truthy (project ps)" and "get_access_token w = Inr token"
    and "http_get w (project_url (project ps)) (''Bearer '' @ token) = Inr (RObject proj)"
    and "\<not> truthy (dict_get proj ''rootId'')"
  shows "get_project_files fuel w ps
           = Some (Inr [\<lparr>opt_value = JStr ''error'',
                         opt_label = JStr (''Error loading files: ''
                                             @ str_error (refused_option w (JStr '''')))\<rparr>],
                   [TokenRequest, HttpGet (project_url (project ps)) (''Bearer '' @ token)])"
  using assms
  by (simp add: get_project_files_def get_project_files_try_def io_try_def io_bind_def
        integration_get_access_token_def requests_get_def io_lift_def response_get_def
        single_option_refused single_option_text Let_def)

lemma no_files_is_an_error:
  assumes "truthy (project ps)" and "get_access_token w = Inr token"
    and "http_get w (project_url (project ps)) (''Bearer '' @ token) = Inr (RObject proj)"
    and "truthy (dict_get proj ''rootId'')"
    and "http_get w (folder_url (dict_get proj ''rootId'')) (''Bearer '' @ token) = Inr (RArray [])"
  shows "get_project_files (Suc fuel) w ps
           = Some (Inr [\<lparr>opt_value = JStr ''error'',
                         opt_label = JStr (''Error loading files: ''
                                             @ str_error (refused_option w (JStr '''')))\<rparr>],
                   [TokenRequest, HttpGet (project_url (project ps)) (''Bearer '' @ token),
                    HttpGet (folder_url (dict_get proj ''rootId'')) (''Bearer '' @ token)])"
  using assms
  by (simp add: get_project_files_def get_project_files_try_def io_try_def io_bind_def
        integration_get_access_token_def requests_get_def io_lift_def response_get_def
        response_items_def io_return_def
        single_option_refused single_option_text Let_def)

text \<open>
  The lighter listing does what the full one does and keeps three fields of each record.
\<close>

lemma io_map_bind:
  "io_map g (io_bind m f) = io_bind m (\<lambda>x. io_map g (f x))"
  by (auto simp: io_map_def io_bind_def split: option.splits prod.splits sum.splits)

lemma io_bind_map:
  "io_bind (io_map g m) f = io_bind m (\<lambda>x. f (g x))"
  by (auto simp: io_map_def io_bind_def split: option.splits prod.splits sum.splits)

lemma io_map_return: "io_map g (io_return x) = io_return (g x)"
  by (simp add: io_map_def io_return_def)

lemma walk_entries_walk_items:
  "walk_entries (\<lambda>i p. io_map (map entry_of) (recurse i p)) current_path items (map entry_of files)
     = io_map (map entry_of) (walk_items recurse current_path items files)"
proof (induction items arbitrary: files)
  case Nil
  then show ?case by (simp add: io_map_return)
next
  case (Cons item items)
  have step: "walk_entries (\<lambda>i p. io_map (map entry_of) (recurse i p)) current_path items
                (map entry_of files @ map entry_of extra)
     = io_map (map entry_of) (walk_items recurse current_path items (files @ extra))" for extra
    using Cons[of "files @ extra"] by simp
  show ?case
  proof (cases "item_type_of item")
    case (Inl e)
    then show ?thesis by (simp add: io_bind_lift_Inl io_map_def)
  next
    case (Inr ty)
    show ?thesis
    proof (cases "ty = ''FOLDER''")
      case True
      with Inr show ?thesis
        by (simp add: io_bind_lift_Inr Let_def io_map_bind io_bind_map step)
    next
      case False
      define r where "r = \<lparr>rec_id = dict_get item ''id'',
                      rec_name = dict_get_default item ''name'' (JStr ''''),
                      rec_path = item_path_of current_path (dict_get_default item ''name'' (JStr '''')),
                      rec_size = dict_get item ''size'',
                      rec_modifiedAt = py_or (dict_get item ''modifiedAt'') (dict_get item ''modifiedOn''),
                      rec_raw = item\<rparr>"
      have l: "walk_entries (\<lambda>i p. io_map (map entry_of) (recurse i p)) current_path
                 (item # items) (map entry_of files)
               = walk_entries (\<lambda>i p. io_map (map entry_of) (recurse i p)) current_path items
                   (map entry_of files @ map entry_of [r])"
        using Inr False by (simp add: io_bind_lift_Inr Let_def entry_of_def r_def)
      have rr: "walk_items recurse current_path (item # items) files
               = walk_items recurse current_path items (files @ [r])"
        using Inr False by (simp add: io_bind_lift_Inr Let_def r_def)
      show ?thesis
        unfolding l rr by (rule step)
    qed
  qed
qed

lemma list_folder_entries_list_folder:
  "list_folder_entries fuel w auth folder_id current_path
     = io_map (map entry_of) (list_folder fuel w auth folder_id current_path)"
proof (induction fuel arbitrary: folder_id current_path)
  case 0
  then show ?case by (simp add: io_map_def)
next
  case (Suc fuel)
  have r: "list_folder_entries fuel w auth = (\<lambda>i p. io_map (map entry_of) (list_folder fuel w auth i p))"
    by (intro ext) (rule Suc.IH)
  show ?case
    using walk_entries_walk_items[of "list_folder fuel w auth" current_path _ "[]"]
    by (simp add: r io_map_bind)
qed

lemma raises_at_map: "raises_at w url auth e (io_map g m) = raises_at w url auth e m"
  by (auto simp: raises_at_def io_map_def split: option.splits prod.splits sum.splits)

lemma get_trimble_projects_try_ends: "get_trimble_projects_try w \<noteq> None"
  by (simp add: get_trimble_projects_try_def io_bind_def integration_get_access_token_def
        requests_get_def io_lift_def io_return_def single_option_def Let_def
        split: option.splits prod.splits sum.splits)

lemma get_trimble_projects_returns: "\<exists>opts t. get_trimble_projects w = Some (Inr opts, t)"
proof (cases "get_trimble_projects_try w")
  case None
  then show ?thesis using get_trimble_projects_try_ends[of w] by simp
next
  case (Some p)
  obtain r t where p: "p = (r, t)" by (cases p)
  show ?thesis
    using Some p
    by (cases r) (simp_all add: get_trimble_projects_def io_try_def single_option_text)
qed

lemma get_project_files_try_failing_listing:
  assumes "get_access_token w = Inr token" and "remote_fproject w token (project ps) ts"
    and "flevels ts \<le> fuel" and "first_some (map first_failure ts) = Some (b, e)"
  shows "\<exists>t. get_project_files_try fuel w ps = Some (Inl e, t)"
proof -
  from assms(2) obtain proj where
    proj: "http_get w (project_url (project ps)) (''Bearer '' @ token) = Inr (RObject proj)"
    and root: "truthy (dict_get proj ''rootId'')"
    and listing: "http_get w (folder_url (dict_get proj ''rootId'')) (''Bearer '' @ token)
            = Inr (RArray (map fnode_item ts))"
    and ok: "\<forall>t \<in> set ts. remote_ftree w (''Bearer '' @ token) t"
    by (auto simp: remote_fproject_def split: sum.splits response.splits)
  have "raises_at w (folder_url (dict_get b ''id'')) (''Bearer '' @ token) e
          (list_folder fuel w (''Bearer '' @ token) (dict_get proj ''rootId'') '''')"
    using list_folder_fforest[OF listing ok assms(3), of "''''"] assms(4) by blast
  then have "raises_at w (folder_url (dict_get b ''id'')) (''Bearer '' @ token) e
          (list_folder_entries fuel w (''Bearer '' @ token) (dict_get proj ''rootId'') '''')"
    by (simp add: list_folder_entries_list_folder raises_at_map)
  then obtain t where
    "list_folder_entries fuel w (''Bearer '' @ token) (dict_get proj ''rootId'') '''' = Some (Inl e, t)"
    by (auto simp: raises_at_def split: option.splits prod.splits sum.splits)
  then show ?thesis
    using assms(1) proj root
    by (simp add: get_project_files_try_def integration_get_access_token_def requests_get_def
          io_bind_def io_lift_def response_get_def Let_def)
qed

text \<open>
  C9. Whatever exception the \<open>try\<close> block of \<open>get_trimble_projects\<close> or of
  \<open>get_project_files\<close> raises (a token or a request that fails, a key that is missing,
  an option value the library refuses), the function returns a list of exactly one
  option, with the value \<open>error\<close> and a label that ends in the exception's message;
  neither function ever raises. \<open>get_trimble_projects\<close> always returns a list; so does
  \<open>get_project_files\<close> when the token cannot be had, and when a folder of the remote
  tree fails to list and the recursion budget covers the tree.
\<close>

theorem option_lists_catch_every_exception:
  "(get_trimble_projects_try w = Some (Inl e, t) \<longrightarrow>
      get_trimble_projects w
        = Some (Inr [\<lparr>opt_value = JStr ''error'',
                      opt_label = JStr (''Error loading projects: '' @ str_error e)\<rparr>], t)) \<and>
   (truthy (project ps) \<longrightarrow> get_project_files_try fuel w ps = Some (Inl e, t) \<longrightarrow>
      get_project_files fuel w ps
        = Some (Inr [\<lparr>opt_value = JStr ''error'',
                      opt_label = JStr (''Error loading files: '' @ str_error e)\<rparr>], t)) \<and>
   (\<forall>e' t'. get_trimble_projects w \<noteq> Some (Inl e', t') \<and>
            get_project_files fuel w ps \<noteq> Some (Inl e', t')) \<and>
   (\<exists>opts t'. get_trimble_projects w = Some (Inr opts, t')) \<and>
   (get_access_token w = Inl e \<longrightarrow>
      get_trimble_projects w
        = Some (Inr [\<lparr>opt_value = JStr ''error'',
                      opt_label = JStr (''Error loading projects: '' @ str_error e)\<rparr>],
                [TokenRequest])) \<and>
   (truthy (project ps) \<longrightarrow> get_access_token w = Inl e \<longrightarrow>
      get_project_files fuel w ps
        = Some (Inr [\<lparr>opt_value = JStr ''error'',
                      opt_label = JStr (''Error loading files: '' @ str_error e)\<rparr>],
                [TokenRequest])) \<and>
   (truthy (project ps) \<longrightarrow> get_access_token w = Inr token \<longrightarrow>
    remote_fproject w token (project ps) ts \<longrightarrow> flevels ts \<le> fuel \<longrightarrow>
    first_some (map first_failure ts) = Some (b, e) \<longrightarrow>
      (\<exists>t'. get_project_files fuel w ps
              = Some (Inr [\<lparr>opt_value = JStr ''error'',
                            opt_label = JStr (''Error loading files: '' @ str_error e)\<rparr>], t')))"
proof (intro conjI)
  show "get_trimble_projects_try w = Some (Inl e, t) \<longrightarrow>
      get_trimble_projects w
        = Some (Inr [\<lparr>opt_value = JStr ''error'',
                      opt_label = JStr (''Error loading projects: '' @ str_error e)\<rparr>], t)"
    by (simp add: get_trimble_projects_def io_try_def single_option_text)
  show "truthy (project ps) \<longrightarrow> get_project_files_try fuel w ps = Some (Inl e, t) \<longrightarrow>
      get_project_files fuel w ps
        = Some (Inr [\<lparr>opt_value = JStr ''error'',
                      opt_label = JStr (''Error loading files: '' @ str_error e)\<rparr>], t)"
    by (simp add: get_project_files_def io_try_def single_option_text)
  show "\<forall>e' t'. get_trimble_projects w \<noteq> Some (Inl e', t') \<and>
            get_project_files fuel w ps \<noteq> Some (Inl e', t')"
    by (auto simp: get_trimble_projects_def get_project_files_def io_try_def single_option_text
          split: option.splits prod.splits sum.splits)
  show "\<exists>opts t'. get_trimble_projects w = Some (Inr opts, t')"
    by (rule get_trimble_projects_returns)
  show "get_access_token w = Inl e \<longrightarrow>
      get_trimble_projects w
        = Some (Inr [\<lparr>opt_value = JStr ''error'',
                      opt_label = JStr (''Error loading projects: '' @ str_error e)\<rparr>],
                [TokenRequest])"
    by (simp add: get_trimble_projects_def get_trimble_projects_try_def io_try_def io_bind_def
          integration_get_access_token_def single_option_text)
  show "truthy (project ps) \<longrightarrow> get_access_token w = Inl e \<longrightarrow>
      get_project_files fuel w ps
        = Some (Inr [\<lparr>opt_value = JStr ''error'',
                      opt_label = JStr (''Error loading files: '' @ str_error e)\<rparr>],
                [TokenRequest])"
    by (simp add: get_project_files_def get_project_files_try_def io_try_def io_bind_def
          integration_get_access_token_def single_option_text)
  show "truthy (project ps) \<longrightarrow> get_access_token w = Inr token \<longrightarrow>
    remote_fproject w token (project ps) ts \<longrightarrow> flevels ts \<le> fuel \<longrightarrow>
    first_some (map first_failure ts) = Some (b, e) \<longrightarrow>
      (\<exists>t'. get_project_files fuel w ps
              = Some (Inr [\<lparr>opt_value = JStr ''error'',
                            opt_label = JStr (''Error loading files: '' @ str_error e)\<rparr>], t'))"
  proof (intro impI)
    assume h: "truthy (project ps)" "get_access_token w = Inr token"
      "remote_fproject w token (project ps) ts" "flevels ts \<le> fuel"
      "first_some (map first_failure ts) = Some (b, e)"
    from get_project_files_try_failing_listing[OF h(2,3,4,5)] obtain t' where
      "get_project_files_try fuel w ps = Some (Inl e, t')" by blast
    then have "get_project_files fuel w ps
              = Some (Inr [\<lparr>opt_value = JStr ''error'',
                            opt_label = JStr (''Error loading files: '' @ str_error e)\<rparr>], t')"
      using h(1) by (simp add: get_project_files_def io_try_def single_option_text)
    then show "\<exists>t'. get_project_files fuel w ps
              = Some (Inr [\<lparr>opt_value = JStr ''error'',
                            opt_label = JStr (''Error loading files: '' @ str_error e)\<rparr>], t')"
      by (rule exI)
  qed
qed

theorem option_lists_witness:
  "get_trimble_projects_try tokenless_world = Some (Inl (PyError ''OAuth2Error'' ''no token''), [TokenRequest]) \<and>
   get_trimble_projects tokenless_world
     = Some (Inr [\<lparr>opt_value = JStr ''error'',
                   opt_label = JStr ''Error loading projects: no token''\<rparr>], [TokenRequest]) \<and>
   truthy (project \<lparr>project = JStr ''P'', file_param = JNull\<rparr>) \<and>
   get_project_files_try 3 failing_world \<lparr>project = JStr ''P'', file_param = JNull\<rparr>
     = Some (Inl (PyError ''HTTPError'' ''500 Server Error''),
             [TokenRequest, HttpGet (project_url (JStr ''P'')) ''Bearer tok'',
              HttpGet (folder_url (JStr ''R'')) ''Bearer tok'',
              HttpGet (folder_url (JStr ''S'')) ''Bearer tok'']) \<and>
   get_project_files 3 failing_world \<lparr>project = JStr ''P'', file_param = JNull\<rparr>
     = Some (Inr [\<lparr>opt_value = JStr ''error'',
                   opt_label = JStr ''Error loading files: 500 Server Error''\<rparr>],
             [TokenRequest, HttpGet (project_url (JStr ''P'')) ''Bearer tok'',
              HttpGet (folder_url (JStr ''R'')) ''Bearer tok'',
              HttpGet (folder_url (JStr ''S'')) ''Bearer tok'']) \<and>
   get_trimble_projects_try empty_account_world
     = Some (Inl (refusal (JStr '''')),
             [TokenRequest, HttpGet (API_BASE @ ''/projects'') ''Bearer tok'']) \<and>
   get_trimble_projects empty_account_world
     = Some (Inr [\<lparr>opt_value = JStr ''error'',
                   opt_label = JStr (''Error loading projects: '' @ str_error (refusal (JStr '''')))\<rparr>],
             [TokenRequest, HttpGet (API_BASE @ ''/projects'') ''Bearer tok'']) \<and>
   get_access_token tokenless_world = Inl (PyError ''OAuth2Error'' ''no token'') \<and>
   get_project_files 3 tokenless_world \<lparr>project = JStr ''P'', file_param = JNull\<rparr>
     = Some (Inr [\<lparr>opt_value = JStr ''error'',
                   opt_label = JStr ''Error loading files: no token''\<rparr>], [TokenRequest]) \<and>
   get_access_token failing_world = Inr ''tok'' \<and>
   remote_fproject failing_world ''tok'' (project \<lparr>project = JStr ''P'', file_param = JNull\<rparr>)
     failing_tree \<and>
   flevels failing_tree \<le> 3 \<and>
   first_some (map first_failure failing_tree)
     = Some (sub_dir, PyError ''HTTPError'' ''500 Server Error'') \<and>
   (\<exists>t'. get_project_files 3 failing_world \<lparr>project = JStr ''P'', file_param = JNull\<rparr>
            = Some (Inr [\<lparr>opt_value = JStr ''error'',
                          opt_label = JStr ''Error loading files: 500 Server Error''\<rparr>], t'))"
proof -
  have h4: "get_trimble_projects_try empty_account_world
     = Some (Inl (refusal (JStr '''')),
             [TokenRequest, HttpGet (API_BASE @ ''/projects'') ''Bearer tok''])"
    by code_simp
  from option_lists_catch_every_exception[of empty_account_world "refusal (JStr '''')"
      "[TokenRequest, HttpGet (API_BASE @ ''/projects'') ''Bearer tok'']"] h4
  have c: "get_trimble_projects empty_account_world
     = Some (Inr [\<lparr>opt_value = JStr ''error'',
                   opt_label = JStr (''Error loading projects: '' @ str_error (refusal (JStr '''')))\<rparr>],
             [TokenRequest, HttpGet (API_BASE @ ''/projects'') ''Bearer tok''])"
    by simp
  have h1: "get_trimble_projects_try tokenless_world
              = Some (Inl (PyError ''OAuth2Error'' ''no token''), [TokenRequest])"
    by code_simp
  have h2: "truthy (project \<lparr>project = JStr ''P'', file_param = JNull\<rparr>)"
    by simp
  have h3: "get_project_files_try 3 failing_world \<lparr>project = JStr ''P'', file_param = JNull\<rparr>
     = Some (Inl (PyError ''HTTPError'' ''500 Server Error''),
             [TokenRequest, HttpGet (project_url (JStr ''P'')) ''Bearer tok'',
              HttpGet (folder_url (JStr ''R'')) ''Bearer tok'',
              HttpGet (folder_url (JStr ''S'')) ''Bearer tok''])"
    by code_simp
  from option_lists_catch_every_exception[of tokenless_world "PyError ''OAuth2Error'' ''no token''"
      "[TokenRequest]"] h1
  have a: "get_trimble_projects tokenless_world
     = Some (Inr [\<lparr>opt_value = JStr ''error'',
                   opt_label = JStr ''Error loading projects: no token''\<rparr>], [TokenRequest])"
    by simp
  from option_lists_catch_every_exception[of failing_world "PyError ''HTTPError'' ''500 Server Error''"
      "[TokenRequest, HttpGet (project_url (JStr ''P'')) ''Bearer tok'',
        HttpGet (folder_url (JStr ''R'')) ''Bearer tok'',
        HttpGet (folder_url (JStr ''S'')) ''Bearer tok'']"
      "\<lparr>project = JStr ''P'', file_param = JNull\<rparr>" 3] h2 h3
  have b: "get_project_files 3 failing_world \<lparr>project = JStr ''P'', file_param = JNull\<rparr>
     = Some (Inr [\<lparr>opt_value = JStr ''error'',
                   opt_label = JStr ''Error loading files: 500 Server Error''\<rparr>],
             [TokenRequest, HttpGet (project_url (JStr ''P'')) ''Bearer tok'',
              HttpGet (folder_url (JStr ''R'')) ''Bearer tok'',
              HttpGet (folder_url (JStr ''S'')) ''Bearer tok''])"
    by simp
  have h5: "get_access_token tokenless_world = Inl (PyError ''OAuth2Error'' ''no token'')"
    by code_simp
  have d: "get_project_files 3 tokenless_world \<lparr>project = JStr ''P'', file_param = JNull\<rparr>
     = Some (Inr [\<lparr>opt_value = JStr ''error'',
                   opt_label = JStr ''Error loading files: no token''\<rparr>], [TokenRequest])"
    using option_lists_catch_every_exception[where w = tokenless_world
        and e = "PyError ''OAuth2Error'' ''no token''"
        and ps = "\<lparr>project = JStr ''P'', file_param = JNull\<rparr>" and fuel = 3] h2 h5
    by simp
  have h6: "get_access_token failing_world = Inr ''tok''" by code_simp
  have h7: "remote_fproject failing_world ''tok''
              (project \<lparr>project = JStr ''P'', file_param = JNull\<rparr>) failing_tree"
    by code_simp
  have h8: "flevels failing_tree \<le> 3" by code_simp
  have h9: "first_some (map first_failure failing_tree)
     = Some (sub_dir, PyError ''HTTPError'' ''500 Server Error'')"
    by code_simp
  have f: "\<exists>t'. get_project_files 3 failing_world \<lparr>project = JStr ''P'', file_param = JNull\<rparr>
            = Some (Inr [\<lparr>opt_value = JStr ''error'',
                          opt_label = JStr ''Error loading files: 500 Server Error''\<rparr>], t')"
    using option_lists_catch_every_exception[where w = failing_world
        and e = "PyError ''HTTPError'' ''500 Server Error''"
        and ps = "\<lparr>project = JStr ''P'', file_param = JNull\<rparr>" and fuel = 3
        and token = "''tok''" and ts = failing_tree and b = sub_dir,
        THEN conjunct2, THEN conjunct2, THEN conjunct2, THEN conjunct2, THEN conjunct2,
        THEN conjunct2, rule_format, OF h2 h6 h7 h8 h9]
    by simp
  show ?thesis
    by (intro conjI h1 a h2 h3 b h4 c h5 d h6 h7 h8 h9 f)
qed

text \<open>
  C10. With no project selected (\<open>params.project\<close> false: \<open>None\<close>, the empty text),
  \<open>get_project_files\<close> returns the single option labelled \<open>Select a Project First\<close>,
  having asked for no token and sent no request.
\<close>

theorem no_project_selected:
  "\<not> truthy (project ps) \<Longrightarrow>
   get_project_files fuel w ps
     = Some (Inr [\<lparr>opt_value = JStr ''Select a Project First'',
                   opt_label = JStr ''Select a Project First''\<rparr>], [])"
  by (simp add: get_project_files_def single_option_text)

theorem no_project_selected_witness:
  "\<not> truthy (project \<lparr>project = JStr '''', file_param = JNull\<rparr>) \<and>
   get_project_files 3 scenario_world \<lparr>project = JStr '''', file_param = JNull\<rparr>
     = Some (Inr [\<lparr>opt_value = JStr ''Select a Project First'',
                   opt_label = JStr ''Select a Project First''\<rparr>], [])"
proof -
  have h: "\<not> truthy (project \<lparr>project = JStr '''', file_param = JNull\<rparr>)" by simp
  show ?thesis using no_project_selected[OF h, of 3 scenario_world] h by simp
qed

section \<open>Markers and their substitution in the viewer document\<close>

lemma prefix_before_separator: "c \<notin> set m \<Longrightarrow> prefix m (a @ c # b) = prefix m a"
proof (induction a arbitrary: m)
  case Nil
  then show ?case by (cases m) auto
next
  case (Cons y ys)
  then show ?case by (cases m) auto
qed

lemma occurrences_separator:
  assumes "m \<noteq> []" and "c \<notin> set m"
  shows "occurrences m (a @ c # b) = occurrences m a + occurrences m b"
proof (induction a)
  case Nil
  have "\<not> prefix m (c # b)"
    using prefix_before_separator[OF assms(2), of "[]" b] assms(1) by simp
  then show ?case using assms(1) by simp
next
  case (Cons y ys)
  have "prefix m (y # ys @ c # b) = prefix m (y # ys)"
    using prefix_before_separator[OF assms(2), of "y # ys" b] by simp
  then show ?case using Cons by simp
qed

lemma replace_str_separator:
  assumes "m \<noteq> []" and "c \<notin> set m"
  shows "replace_str (a @ c # b) m new = replace_str a m new @ c # replace_str b m new"
proof (induction a rule: length_induct)
  case (1 a)
  show ?case
  proof (cases a)
    case Nil
    have "\<not> prefix m (c # b)"
      using prefix_before_separator[OF assms(2), of "[]" b] assms(1) by simp
    then show ?thesis using Nil assms(1) by simp
  next
    case (Cons y ys)
    have p: "prefix m (y # ys @ c # b) = prefix m (y # ys)"
      using prefix_before_separator[OF assms(2), of "y # ys" b] by simp
    show ?thesis
    proof (cases "prefix m (y # ys)")
      case True
      then have le: "length m \<le> length (y # ys)" by (rule prefix_length_le)
      have short: "length (drop (length m) (y # ys)) < length a"
        using assms(1) Cons by (cases m) auto
      have "drop (length m) ((y # ys) @ c # b)
              = drop (length m) (y # ys) @ drop (length m - length (y # ys)) (c # b)"
        by (rule drop_append)
      moreover have "length m - length (y # ys) = 0"
        using le by simp
      ultimately have "drop (length m) (y # ys @ c # b) = drop (length m) (y # ys) @ c # b"
        by (simp del: drop_Suc_Cons length_Cons)
      then show ?thesis
        using True p Cons assms(1) 1[rule_format, OF short] by simp
    next
      case False
      have "length ys < length a" using Cons by simp
      then show ?thesis
        using False p Cons assms(1) 1[rule_format, of ys] by simp
    qed
  qed
qed

lemma occurrences_line:
  assumes "m \<noteq> []" and "CHR 0x0A \<notin> set m" and "ends_with_newline l"
  shows "occurrences m (l @ rest) = occurrences m l + occurrences m rest"
proof -
  from assms(3) have l: "l = butlast l @ [CHR 0x0A]"
    by (simp add: ends_with_newline_def) (metis append_butlast_last_id)
  have "occurrences m (butlast l @ CHR 0x0A # rest)
          = occurrences m (butlast l @ CHR 0x0A # []) + occurrences m rest"
    using assms(1) by (simp add: occurrences_separator[OF assms(1,2)])
  then show ?thesis using l by (metis append.assoc append_Cons append_Nil)
qed

lemma replace_str_line:
  assumes "m \<noteq> []" and "CHR 0x0A \<notin> set m" and "ends_with_newline l"
  shows "replace_str (l @ rest) m new = replace_str l m new @ replace_str rest m new"
proof -
  from assms(3) have l: "l = butlast l @ [CHR 0x0A]"
    by (simp add: ends_with_newline_def) (metis append_butlast_last_id)
  have "replace_str (butlast l @ CHR 0x0A # rest) m new
          = replace_str (butlast l @ CHR 0x0A # []) m new @ replace_str rest m new"
    using assms(1) by (simp add: replace_str_separator[OF assms(1,2)])
  then show ?thesis using l by (metis append.assoc append_Cons append_Nil)
qed

lemma occurrences_lines:
  assumes "m \<noteq> []" and "CHR 0x0A \<notin> set m" and "list_all ends_with_newline ls"
  shows "occurrences m (concat ls) = sum_list (map (occurrences m) ls)"
  using assms(3)
proof (induction ls)
  case Nil
  then show ?case using assms(1) by simp
next
  case (Cons l ls)
  then show ?case by (simp add: occurrences_line[OF assms(1,2)])
qed

lemma replace_str_lines:
  assumes "m \<noteq> []" and "CHR 0x0A \<notin> set m" and "list_all ends_with_newline ls"
  shows "replace_str (concat ls) m new = concat (map (\<lambda>l. replace_str l m new) ls)"
  using assms(3)
proof (induction ls)
  case Nil
  then show ?case using assms(1) by simp
next
  case (Cons l ls)
  then show ?case by (simp add: replace_str_line[OF assms(1,2)])
qed

lemma no_dunder_no_occurrence:
  "\<not> has_dunder s \<Longrightarrow> occurrences (CHR ''_'' # CHR ''_'' # m) s = 0"
  by (induction s rule: has_dunder.induct) auto

lemma no_occurrence_replace_str:
  "m \<noteq> [] \<Longrightarrow> occurrences m s = 0 \<Longrightarrow> replace_str s m new = s"
  by (induction s) (auto split: if_splits)

lemma replace_str_self: "m \<noteq> [] \<Longrightarrow> replace_str m m new = new"
  by (cases m) auto

lemma head_plain: "list_all (\<lambda>l. ends_with_newline l \<and> \<not> has_dunder l) template_head"
  by (simp add: template_head_def template_lines_def ends_with_newline_def)

lemma tail_plain: "list_all (\<lambda>l. ends_with_newline l \<and> \<not> has_dunder l) template_tail"
  by (simp add: template_tail_def template_lines_def ends_with_newline_def)

lemma template_is_document:
  "VIEWER_HTML_TEMPLATE
     = viewer_document ''__ACCESS_TOKEN__'' ''__PROJECT_ID__'' ''__MODEL_ID__'' ''__VERSION_ID__''"
  by (simp add: VIEWER_HTML_TEMPLATE_def viewer_document_def template_head_def template_tail_def
        const_line_def template_lines_def)

lemma ends_with_newline_const_line: "ends_with_newline (const_line decl v)"
  by (simp add: ends_with_newline_def const_line_def)

lemma document_lines_end:
  "list_all ends_with_newline
     (template_head @ [const_line d1 a, const_line d2 p, const_line d3 m, const_line d4 v] @ template_tail)"
  using head_plain tail_plain
  by (auto simp: ends_with_newline_const_line list_all_iff)

text \<open>A marker: it starts with two underscores and holds no newline and no double quote.\<close>

lemma occurrences_const_line:
  assumes "prefix ''__'' M" and "CHR 0x22 \<notin> set M" and "\<not> has_dunder decl"
  shows "occurrences M (const_line decl v) = occurrences M v"
proof -
  from assms(1) obtain m' where M: "M = CHR ''_'' # CHR ''_'' # m'"
    by (auto simp: prefix_def)
  then have ne: "M \<noteq> []" by simp
  have d: "occurrences M decl = 0"
    unfolding M by (rule no_dunder_no_occurrence[OF assms(3)])
  have e: "occurrences M '';\<newline>'' = 0"
    unfolding M by (rule no_dunder_no_occurrence) simp
  show ?thesis
    unfolding const_line_def
    by (simp only: occurrences_separator[OF ne assms(2)] d e)
qed

lemma replace_str_const_line:
  assumes "prefix ''__'' M" and "CHR 0x22 \<notin> set M" and "\<not> has_dunder decl"
  shows "replace_str (const_line decl v) M new = const_line decl (replace_str v M new)"
proof -
  from assms(1) obtain m' where M: "M = CHR ''_'' # CHR ''_'' # m'"
    by (auto simp: prefix_def)
  then have ne: "M \<noteq> []" by simp
  have "occurrences M decl = 0"
    unfolding M by (rule no_dunder_no_occurrence[OF assms(3)])
  then have d: "replace_str decl M new = decl"
    by (rule no_occurrence_replace_str[OF ne])
  have "occurrences M '';\<newline>'' = 0"
    unfolding M by (rule no_dunder_no_occurrence) simp
  then have e: "replace_str '';\<newline>'' M new = '';\<newline>''"
    by (rule no_occurrence_replace_str[OF ne])
  show ?thesis
    unfolding const_line_def
    by (simp only: replace_str_separator[OF ne assms(2)] d e)
qed

lemma plain_lines_unchanged:
  assumes "prefix ''__'' M" and "list_all (\<lambda>l. ends_with_newline l \<and> \<not> has_dunder l) ls"
  shows "map (\<lambda>l. replace_str l M new) ls = ls" and "sum_list (map (occurrences M) ls) = 0"
proof -
  from assms(1) obtain m' where M: "M = CHR ''_'' # CHR ''_'' # m'"
    by (auto simp: prefix_def)
  then have ne: "M \<noteq> []" by simp
  have z: "occurrences M l = 0" if "l \<in> set ls" for l
    using assms(2) that unfolding M by (auto simp: list_all_iff intro: no_dunder_no_occurrence)
  then show "sum_list (map (occurrences M) ls) = 0" by simp
  show "map (\<lambda>l. replace_str l M new) ls = ls"
    by (rule map_idI) (simp add: z no_occurrence_replace_str[OF ne])
qed

lemma decls_plain:
  "\<not> has_dunder ''      const ACCESS_TOKEN = ''" "\<not> has_dunder ''      const PROJECT_ID   = ''"
  "\<not> has_dunder ''      const MODEL_ID     = ''" "\<not> has_dunder ''      const VERSION_ID   = ''"
  by simp_all

lemma replace_str_document:
  assumes "prefix ''__'' M" and "CHR 0x0A \<notin> set M" and "CHR 0x22 \<notin> set M"
  shows "replace_str (viewer_document a p m v) M new
           = viewer_document (replace_str a M new) (replace_str p M new)
               (replace_str m M new) (replace_str v M new)"
proof -
  from assms(1) have ne: "M \<noteq> []" by (auto simp: prefix_def)
  show ?thesis
    unfolding viewer_document_def
    by (simp only: replace_str_lines[OF ne assms(2) document_lines_end] map_append list.map
          plain_lines_unchanged(1)[OF assms(1) head_plain]
          plain_lines_unchanged(1)[OF assms(1) tail_plain]
          replace_str_const_line[OF assms(1,3) decls_plain(1)]
          replace_str_const_line[OF assms(1,3) decls_plain(2)]
          replace_str_const_line[OF assms(1,3) decls_plain(3)]
          replace_str_const_line[OF assms(1,3) decls_plain(4)])
qed

lemma occurrences_document:
  assumes "prefix ''__'' M" and "CHR 0x0A \<notin> set M" and "CHR 0x22 \<notin> set M"
  shows "occurrences M (viewer_document a p m v)
           = occurrences M a + occurrences M p + occurrences M m + occurrences M v"
proof -
  from assms(1) have ne: "M \<noteq> []" by (auto simp: prefix_def)
  show ?thesis
    unfolding viewer_document_def
    by (simp only: occurrences_lines[OF ne assms(2) document_lines_end] map_append list.map
          sum_list_append sum_list.Cons sum_list.Nil
          plain_lines_unchanged(2)[OF assms(1) head_plain]
          plain_lines_unchanged(2)[OF assms(1) tail_plain]
          occurrences_const_line[OF assms(1,3) decls_plain(1)]
          occurrences_const_line[OF assms(1,3) decls_plain(2)]
          occurrences_const_line[OF assms(1,3) decls_plain(3)]
          occurrences_const_line[OF assms(1,3) decls_plain(4)])
qed

lemma markers:
  "prefix ''__'' ''__ACCESS_TOKEN__''" "CHR 0x0A \<notin> set ''__ACCESS_TOKEN__''" "CHR 0x22 \<notin> set ''__ACCESS_TOKEN__''"
  "prefix ''__'' ''__PROJECT_ID__''" "CHR 0x0A \<notin> set ''__PROJECT_ID__''" "CHR 0x22 \<notin> set ''__PROJECT_ID__''"
  "prefix ''__'' ''__MODEL_ID__''" "CHR 0x0A \<notin> set ''__MODEL_ID__''" "CHR 0x22 \<notin> set ''__MODEL_ID__''"
  "prefix ''__'' ''__VERSION_ID__''" "CHR 0x0A \<notin> set ''__VERSION_ID__''" "CHR 0x22 \<notin> set ''__VERSION_ID__''"
  by simp_all

lemma marker_in_marker:
  "occurrences ''__ACCESS_TOKEN__'' ''__ACCESS_TOKEN__'' = 1"
  "occurrences ''__ACCESS_TOKEN__'' ''__PROJECT_ID__'' = 0"
  "occurrences ''__ACCESS_TOKEN__'' ''__MODEL_ID__'' = 0"
  "occurrences ''__ACCESS_TOKEN__'' ''__VERSION_ID__'' = 0"
  "occurrences ''__PROJECT_ID__'' ''__ACCESS_TOKEN__'' = 0"
  "occurrences ''__PROJECT_ID__'' ''__PROJECT_ID__'' = 1"
  "occurrences ''__PROJECT_ID__'' ''__MODEL_ID__'' = 0"
  "occurrences ''__PROJECT_ID__'' ''__VERSION_ID__'' = 0"
  "occurrences ''__MODEL_ID__'' ''__ACCESS_TOKEN__'' = 0"
  "occurrences ''__MODEL_ID__'' ''__PROJECT_ID__'' = 0"
  "occurrences ''__MODEL_ID__'' ''__MODEL_ID__'' = 1"
  "occurrences ''__MODEL_ID__'' ''__VERSION_ID__'' = 0"
  "occurrences ''__VERSION_ID__'' ''__ACCESS_TOKEN__'' = 0"
  "occurrences ''__VERSION_ID__'' ''__PROJECT_ID__'' = 0"
  "occurrences ''__VERSION_ID__'' ''__MODEL_ID__'' = 0"
  "occurrences ''__VERSION_ID__'' ''__VERSION_ID__'' = 1"
  by simp_all

lemma build_is_document:
  assumes "occurrences ''__PROJECT_ID__'' a = 0" and "occurrences ''__MODEL_ID__'' a = 0"
    and "occurrences ''__VERSION_ID__'' a = 0" and "occurrences ''__MODEL_ID__'' p = 0"
    and "occurrences ''__VERSION_ID__'' p = 0" and "occurrences ''__VERSION_ID__'' m = 0"
  shows "build_trimble_viewer_html a p m v = viewer_document a p m (or_empty v)"
proof -
  have keep: "replace_str s M new = s" if "occurrences M s = 0" "M \<noteq> []" for s M new
    using that by (simp add: no_occurrence_replace_str)
  have s1: "replace_str VIEWER_HTML_TEMPLATE ''__ACCESS_TOKEN__'' a
              = viewer_document a ''__PROJECT_ID__'' ''__MODEL_ID__'' ''__VERSION_ID__''"
    unfolding template_is_document replace_str_document[OF markers(1,2,3)]
    by (simp add: replace_str_self keep marker_in_marker del: replace_str.simps)
  have s2: "replace_str (viewer_document a ''__PROJECT_ID__'' ''__MODEL_ID__'' ''__VERSION_ID__'')
                ''__PROJECT_ID__'' p
              = viewer_document a p ''__MODEL_ID__'' ''__VERSION_ID__''"
    unfolding replace_str_document[OF markers(4,5,6)]
    using assms(1) by (simp add: replace_str_self keep marker_in_marker del: replace_str.simps)
  have s3: "replace_str (viewer_document a p ''__MODEL_ID__'' ''__VERSION_ID__'') ''__MODEL_ID__'' m
              = viewer_document a p m ''__VERSION_ID__''"
    unfolding replace_str_document[OF markers(7,8,9)]
    using assms(2,4) by (simp add: replace_str_self keep marker_in_marker del: replace_str.simps)
  have s4: "replace_str (viewer_document a p m ''__VERSION_ID__'') ''__VERSION_ID__'' (or_empty v)
              = viewer_document a p m (or_empty v)"
    unfolding replace_str_document[OF markers(10,11,12)]
    using assms(3,5,6) by (simp add: replace_str_self keep marker_in_marker del: replace_str.simps)
  show ?thesis
    unfolding build_trimble_viewer_html_def Let_def s1 s2 s3 s4 ..
qed

text \<open>
  C7. Each of the four markers \<open>__ACCESS_TOKEN__\<close>, \<open>__PROJECT_ID__\<close>, \<open>__MODEL_ID__\<close>
  and \<open>__VERSION_ID__\<close> occurs at exactly one position of the template, as the value
  of the constant it names. \<open>build_trimble_viewer_html\<close> replaces them one after the
  other, so for arguments that hold no marker still to be replaced, the result is the
  template with each marker replaced by its argument (the empty text for no version).
  For the token \<open>T\<close>, the project \<open>P\<close>, the model \<open>M\<close> and no version, the result has
  \<open>T\<close> where the access-token marker was, and none of the four markers occurs in it.
\<close>

theorem viewer_markers_replaced:
  "occurrences ''__ACCESS_TOKEN__'' VIEWER_HTML_TEMPLATE = 1 \<and>
   occurrences ''__PROJECT_ID__'' VIEWER_HTML_TEMPLATE = 1 \<and>
   occurrences ''__MODEL_ID__'' VIEWER_HTML_TEMPLATE = 1 \<and>
   occurrences ''__VERSION_ID__'' VIEWER_HTML_TEMPLATE = 1 \<and>
   VIEWER_HTML_TEMPLATE
     = viewer_document ''__ACCESS_TOKEN__'' ''__PROJECT_ID__'' ''__MODEL_ID__'' ''__VERSION_ID__'' \<and>
   (occurrences ''__PROJECT_ID__'' a = 0 \<longrightarrow> occurrences ''__MODEL_ID__'' a = 0 \<longrightarrow>
    occurrences ''__VERSION_ID__'' a = 0 \<longrightarrow> occurrences ''__MODEL_ID__'' p = 0 \<longrightarrow>
    occurrences ''__VERSION_ID__'' p = 0 \<longrightarrow> occurrences ''__VERSION_ID__'' m = 0 \<longrightarrow>
      build_trimble_viewer_html a p m v = viewer_document a p m (or_empty v)) \<and>
   build_trimble_viewer_html ''T'' ''P'' ''M'' None = viewer_document ''T'' ''P'' ''M'' '''' \<and>
   occurrences ''__ACCESS_TOKEN__'' (build_trimble_viewer_html ''T'' ''P'' ''M'' None) = 0 \<and>
   occurrences ''__PROJECT_ID__'' (build_trimble_viewer_html ''T'' ''P'' ''M'' None) = 0 \<and>
   occurrences ''__MODEL_ID__'' (build_trimble_viewer_html ''T'' ''P'' ''M'' None) = 0 \<and>
   occurrences ''__VERSION_ID__'' (build_trimble_viewer_html ''T'' ''P'' ''M'' None) = 0"
proof -
  have t1: "occurrences ''__ACCESS_TOKEN__'' VIEWER_HTML_TEMPLATE = 1"
    unfolding template_is_document occurrences_document[OF markers(1,2,3)]
    by (simp add: marker_in_marker del: occurrences.simps)
  have t2: "occurrences ''__PROJECT_ID__'' VIEWER_HTML_TEMPLATE = 1"
    unfolding template_is_document occurrences_document[OF markers(4,5,6)]
    by (simp add: marker_in_marker del: occurrences.simps)
  have t3: "occurrences ''__MODEL_ID__'' VIEWER_HTML_TEMPLATE = 1"
    unfolding template_is_document occurrences_document[OF markers(7,8,9)]
    by (simp add: marker_in_marker del: occurrences.simps)
  have t4: "occurrences ''__VERSION_ID__'' VIEWER_HTML_TEMPLATE = 1"
    unfolding template_is_document occurrences_document[OF markers(10,11,12)]
    by (simp add: marker_in_marker del: occurrences.simps)
  have b: "build_trimble_viewer_html ''T'' ''P'' ''M'' None = viewer_document ''T'' ''P'' ''M'' ''''"
    using build_is_document[of "''T''" "''P''" "''M''" None] by (simp add: or_empty_def)
  have o1: "occurrences ''__ACCESS_TOKEN__'' (viewer_document ''T'' ''P'' ''M'' '''') = 0"
    unfolding occurrences_document[OF markers(1,2,3)] by simp
  have o2: "occurrences ''__PROJECT_ID__'' (viewer_document ''T'' ''P'' ''M'' '''') = 0"
    unfolding occurrences_document[OF markers(4,5,6)] by simp
  have o3: "occurrences ''__MODEL_ID__'' (viewer_document ''T'' ''P'' ''M'' '''') = 0"
    unfolding occurrences_document[OF markers(7,8,9)] by simp
  have o4: "occurrences ''__VERSION_ID__'' (viewer_document ''T'' ''P'' ''M'' '''') = 0"
    unfolding occurrences_document[OF markers(10,11,12)] by simp
  show ?thesis
    unfolding b
    by (intro conjI impI t1 t2 t3 t4 template_is_document build_is_document o1 o2 o3 o4 refl)
qed

text \<open>A token with underscores, two identifiers and a version.\<close>

theorem viewer_markers_witness:
  "occurrences ''__PROJECT_ID__'' ''eyJ_a__b'' = 0 \<and> occurrences ''__MODEL_ID__'' ''eyJ_a__b'' = 0 \<and>
   occurrences ''__VERSION_ID__'' ''eyJ_a__b'' = 0 \<and> occurrences ''__MODEL_ID__'' ''GUiM8Tk3nTo'' = 0 \<and>
   occurrences ''__VERSION_ID__'' ''GUiM8Tk3nTo'' = 0 \<and> occurrences ''__VERSION_ID__'' ''ETNppTylU6c'' = 0 \<and>
   build_trimble_viewer_html ''eyJ_a__b'' ''GUiM8Tk3nTo'' ''ETNppTylU6c'' (Some ''v2'')
     = viewer_document ''eyJ_a__b'' ''GUiM8Tk3nTo'' ''ETNppTylU6c'' ''v2''"
proof -
  have h: "occurrences ''__PROJECT_ID__'' ''eyJ_a__b'' = 0" "occurrences ''__MODEL_ID__'' ''eyJ_a__b'' = 0"
    "occurrences ''__VERSION_ID__'' ''eyJ_a__b'' = 0" "occurrences ''__MODEL_ID__'' ''GUiM8Tk3nTo'' = 0"
    "occurrences ''__VERSION_ID__'' ''GUiM8Tk3nTo'' = 0" "occurrences ''__VERSION_ID__'' ''ETNppTylU6c'' = 0"
    by simp_all
  have "build_trimble_viewer_html ''eyJ_a__b'' ''GUiM8Tk3nTo'' ''ETNppTylU6c'' (Some ''v2'')
     = viewer_document ''eyJ_a__b'' ''GUiM8Tk3nTo'' ''ETNppTylU6c'' (or_empty (Some ''v2''))"
    using viewer_markers_replaced[of "''eyJ_a__b''" "''GUiM8Tk3nTo''" "''ETNppTylU6c''" "Some ''v2''"] h
    by blast
  then show ?thesis using h by (simp add: or_empty_def)
qed

end
